theory Spec2Isabelle
  imports Complex_Main "HOL-Library.Word" "HOL-Library.Sublist"
begin

section \<open>The generator of \<^verbatim>\<open>gen/generator.go\<close>\<close>

text \<open>
  A shallow embedding of \<^verbatim>\<open>src/gen/generator.go\<close>. Go strings are byte sequences and
  are modelled as \<^typ>\<open>string\<close>. The functions of Go's standard library that work on bytes
  (\<^verbatim>\<open>strings.HasPrefix\<close>, \<^verbatim>\<open>strings.Join\<close>, \<^verbatim>\<open>bufio.Scanner\<close>, the two fixed patterns
  of \<^verbatim>\<open>regexp\<close>) are modelled as the library documents them. The functions that decode
  UTF-8 and consult the Unicode tables (\<^verbatim>\<open>strings.IndexFunc\<close> with \<^verbatim>\<open>unicode.IsUpper\<close>,
  \<^verbatim>\<open>strings.ToLower\<close>, \<^verbatim>\<open>strings.Fields\<close>), the libraries \<^verbatim>\<open>yaml\<close> and
  \<^verbatim>\<open>text/template\<close>, and the compiler of \<^verbatim>\<open>regexp\<close> are parameters of the model.
\<close>

subsection \<open>Data model (lines 47-146)\<close>

text \<open>
  \<^verbatim>\<open>YamlConfigAttribute\<close> is recursive through its last field, so it is a datatype whose
  selectors are the fields of the Go struct, in the order of the struct. The field
  \<^verbatim>\<open>Id\<close> is named \<open>Id'\<close>. The two \<^verbatim>\<open>float64\<close> fields are only carried along and
  never inspected by the program.
\<close>

datatype YamlConfigAttribute = YamlConfigAttribute
  (ModelName: string)
  (TfName: string)
  (Type: string)
  (DataPath: "string list")
  (Id': bool)
  (ResourceId: bool)
  (Reference: bool)
  (RequiresReplace: bool)
  (Mandatory: bool)
  (WriteOnly: bool)
  (WriteChangesOnly: bool)
  (ExcludeTest: bool)
  (ExcludeExample: bool)
  (Description: string)
  (Example: string)
  (EnumValues: "string list")
  (MinList: "64 word")
  (MaxList: "64 word")
  (MinInt: "64 word")
  (MaxInt: "64 word")
  (MinFloat: real)
  (MaxFloat: real)
  (StringPatterns: "string list")
  (StringMinLength: "64 word")
  (StringMaxLength: "64 word")
  (DefaultValue: string)
  (Value: string)
  (TestValue: string)
  (MinimumTestValue: string)
  (TestTags: "string list")
  (Attributes: "YamlConfigAttribute list")

text \<open>The zero value \<^verbatim>\<open>YamlConfigAttribute{}\<close> with seven of its fields set: the two names,
  the type, the three flags that the predicate scans read, and the nested attributes.\<close>

definition mkAttribute ::
  "string \<Rightarrow> string \<Rightarrow> string \<Rightarrow> bool \<Rightarrow> bool \<Rightarrow> bool \<Rightarrow> YamlConfigAttribute list
    \<Rightarrow> YamlConfigAttribute" where
  "mkAttribute modelName tfName type isId resourceId reference attributes =
     YamlConfigAttribute modelName tfName type [] isId resourceId reference
       False False False False False False [] [] [] 0 0 0 0 0 0 [] 0 0 [] [] [] [] [] attributes"

text \<open>The fields \<^verbatim>\<open>ExcludeTest\<close>, \<^verbatim>\<open>Attributes\<close> and \<^verbatim>\<open>TestTags\<close> of \<^verbatim>\<open>YamlConfig\<close>
  carry the prefix \<open>Config\<close>, since the selectors of the attribute have these names.\<close>

record YamlConfig =
  Name :: string
  RestEndpoint :: string
  PutCreate :: bool
  NoUpdate :: bool
  NoDelete :: bool
  DataSourceNameQuery :: bool
  MinimumVersion :: string
  DsDescription :: string
  ResDescription :: string
  DocCategory :: string
  ConfigExcludeTest :: bool
  SkipMinimumTest :: bool
  ConfigAttributes :: "YamlConfigAttribute list"
  ConfigTestTags :: "string list"
  TestPrerequisites :: string

subsection \<open>Predicate scans (lines 201-234)\<close>

fun HasId :: "YamlConfigAttribute list \<Rightarrow> bool" where
  "HasId [] = False"
| "HasId (attr # attributes) = (if Id' attr then True else HasId attributes)"

fun HasReference :: "YamlConfigAttribute list \<Rightarrow> bool" where
  "HasReference [] = False"
| "HasReference (attr # attributes) = (if Reference attr then True else HasReference attributes)"

lemma size_Attributes_less: "size_list size (Attributes attr) < size attr"
  by (cases attr) simp

function HasResourceId :: "YamlConfigAttribute list \<Rightarrow> bool" where
  "HasResourceId [] = False"
| "HasResourceId (attr # attributes) =
     (if ResourceId attr then True
      else if length (Attributes attr) > 0 \<and> HasResourceId (Attributes attr) then True
      else HasResourceId attributes)"
  by pat_completeness auto
termination
proof (relation "measure (size_list size)")
  show "wf (measure (size_list (size :: YamlConfigAttribute \<Rightarrow> nat)))"
    by simp
next
  fix attr :: YamlConfigAttribute and attributes :: "YamlConfigAttribute list"
  show "(Attributes attr, attr # attributes) \<in> measure (size_list size)"
    using size_Attributes_less [of attr] by simp
next
  fix attr :: YamlConfigAttribute and attributes :: "YamlConfigAttribute list"
  show "(attributes, attr # attributes) \<in> measure (size_list size)"
    by simp
qed

subsection \<open>Functions of the Go library on strings\<close>

abbreviation NL :: char where
  "NL \<equiv> CHR 0x0A"

abbreviation CR :: char where
  "CR \<equiv> CHR 0x0D"

text \<open>
  The functions of package \<^verbatim>\<open>strings\<close> that depend on Unicode are taken as they are:
  \<open>IndexUpper strings s\<close> stands for \<^verbatim>\<open>strings.IndexFunc(s, unicode.IsUpper)\<close>, the byte
  index of the first uppercase letter of \<open>s\<close> or \<open>-1\<close>, \<open>ToLower strings s\<close> for
  \<^verbatim>\<open>strings.ToLower(s)\<close> and \<open>Fields strings s\<close> for \<^verbatim>\<open>strings.Fields(s)\<close>. Every
  definition below that calls one of them takes the package as its first argument.
\<close>

record strings =
  IndexUpper :: "string \<Rightarrow> int"
  ToLower :: "string \<Rightarrow> string"
  Fields :: "string \<Rightarrow> string list"

definition HasPrefix :: "string \<Rightarrow> string \<Rightarrow> bool" where
  "HasPrefix s pre = (take (length pre) s = pre)"

definition HasSuffix :: "string \<Rightarrow> string \<Rightarrow> bool" where
  "HasSuffix s suf = (length suf \<le> length s \<and> drop (length s - length suf) s = suf)"

fun Join :: "string list \<Rightarrow> string \<Rightarrow> string" where
  "Join [] sep = []"
| "Join [w] sep = w"
| "Join (w # ws) sep = w @ sep @ Join ws sep"

text \<open>\<^verbatim>\<open>strings.ReplaceAll\<close> for a one-byte pattern, as \<^verbatim>\<open>SnakeCase\<close> calls it.\<close>

definition ReplaceAll1 :: "string \<Rightarrow> char \<Rightarrow> string \<Rightarrow> string" where
  "ReplaceAll1 s old new = concat (map (\<lambda>c. if c = old then new else [c]) s)"

subsection \<open>Templating helper \<^verbatim>\<open>SnakeCase\<close> (lines 174-185)\<close>

definition SnakeCase :: "strings \<Rightarrow> string \<Rightarrow> string" where
  "SnakeCase strings s =
     (let s' = ReplaceAll1 s (CHR ''-'') '' '';
          p = Fields strings s';
          g = foldl (\<lambda>g v. g @ [ToLower strings v]) [] p
      in Join g ''_'')"

subsection \<open>Augmentation (lines 249-284)\<close>

text \<open>The loop of lines 253-259; \<open>s\<close> is the rest of the model name, \<open>l\<close> is recomputed
  in every round before it is read. \<^verbatim>\<open>strings.IndexFunc\<close> returns \<open>-1\<close> or an index into
  its argument, so the slices \<^verbatim>\<open>s[:l]\<close> and \<^verbatim>\<open>s[l:]\<close> are within \<open>s\<close>.\<close>

function tfNameLoop :: "strings \<Rightarrow> string \<Rightarrow> string list \<Rightarrow> string list" where
  "tfNameLoop strings s words =
     (if s = [] then words
      else (let l0 = IndexUpper strings (drop 1 s) + 1;
                l = (if l0 \<le> 0 then int (length s) else l0)
            in tfNameLoop strings (drop (nat l) s)
                 (words @ [ToLower strings (take (nat l) s)])))"
  by pat_completeness auto
termination
proof (relation "measure (\<lambda>(strings, s, words). length s)")
  show "wf (measure (\<lambda>(strings :: strings, s :: string, words :: string list). length s))"
    by simp
next
  fix strings :: strings and s :: string and words :: "string list" and l0 l :: int
  assume "s \<noteq> []" and l: "l = (if l0 \<le> 0 then int (length s) else l0)"
  from \<open>s \<noteq> []\<close> have "0 < length s" by simp
  then have "0 < nat l" using l by (auto split: if_splits)
  with \<open>0 < length s\<close>
  show "((strings, drop (nat l) s, words @ [ToLower strings (take (nat l) s)]),
          (strings, s, words)) \<in> measure (\<lambda>(strings, s, words). length s)"
    by simp
qed

declare tfNameLoop.simps [simp del]

fun augmentAttribute :: "strings \<Rightarrow> YamlConfigAttribute \<Rightarrow> YamlConfigAttribute" where
  "augmentAttribute strings (YamlConfigAttribute modelName tfName type dataPath isId resourceId
       reference requiresReplace mandatory writeOnly writeChangesOnly excludeTest
       excludeExample description example enumValues minList maxList minInt maxInt minFloat
       maxFloat stringPatterns stringMinLength stringMaxLength defaultValue val testValue
       minimumTestValue testTags attributes) =
     YamlConfigAttribute modelName
       (if tfName = [] then Join (tfNameLoop strings modelName []) ''_'' else tfName)
       type dataPath isId resourceId
       reference requiresReplace mandatory writeOnly writeChangesOnly excludeTest
       excludeExample description example enumValues minList maxList minInt maxInt minFloat
       maxFloat stringPatterns stringMinLength stringMaxLength defaultValue val testValue
       minimumTestValue testTags
       (if type = ''List'' \<or> type = ''Set'' then map (augmentAttribute strings) attributes
        else attributes)"

definition augmentConfig :: "strings \<Rightarrow> YamlConfig \<Rightarrow> YamlConfig" where
  "augmentConfig strings config =
     (let config1 = config\<lparr>ConfigAttributes :=
                             map (augmentAttribute strings) (ConfigAttributes config)\<rparr>;
          config2 =
            (if DsDescription config1 = []
             then config1\<lparr>DsDescription := ''This data source can read the '' @ Name config1 @ ''.''\<rparr>
             else config1)
      in if ResDescription config2 = []
         then (let name = ToLower strings (Name config2)
               in if HasPrefix name ''a'' \<or> HasPrefix name ''e'' \<or> HasPrefix name ''i''
                     \<or> HasPrefix name ''o'' \<or> HasPrefix name ''u''
                  then config2\<lparr>ResDescription := ''This resource can manage an '' @ Name config2 @ ''.''\<rparr>
                  else config2\<lparr>ResDescription := ''This resource can manage a '' @ Name config2 @ ''.''\<rparr>)
         else config2)"

subsection \<open>Reading lines and matching markers\<close>

text \<open>
  \<^verbatim>\<open>bufio.Scanner\<close> with its default split function \<^verbatim>\<open>ScanLines\<close> and its default buffer.
  The state of a scanner is the input that it has not handed out yet, and whether it has
  met a token that does not fit its buffer (\<^verbatim>\<open>ErrTooLong\<close>). \<open>Scan\<close> returns the token (the
  \<^verbatim>\<open>Text\<close> of the scanner after a call that returns true) or \<open>None\<close> (the call returns
  false), and the new state:
  \<^item> a token ends at a line feed, which is not part of it, or at the end of the input when
    it is not empty; one trailing carriage return is dropped;
  \<^item> when the bytes in front of the next line feed (or of the end of the input) are
    \<^verbatim>\<open>MaxScanTokenSize\<close> or more, the buffer is full without a token: the call returns
    false and the scanner keeps the error and the bytes in its buffer; the rest of the
    input is never read;
  \<^item> a call after that error hands the bytes of the buffer to the split function as the
    last ones, so it returns them as a token; every later call returns false.
  The program never looks at \<^verbatim>\<open>Err\<close>.
\<close>

definition MaxScanTokenSize :: nat where
  "MaxScanTokenSize = 64 * 1024"

definition dropCR :: "string \<Rightarrow> string" where
  "dropCR data = (if data \<noteq> [] \<and> last data = CR then butlast data else data)"

record Scanner =
  unread :: string
  tooLong :: bool

definition NewScanner :: "string \<Rightarrow> Scanner" where
  "NewScanner data = \<lparr>unread = data, tooLong = False\<rparr>"

definition Scan :: "Scanner \<Rightarrow> string option \<times> Scanner" where
  "Scan s =
     (if unread s = [] then (None, s)
      else if tooLong s then (Some (dropCR (unread s)), s\<lparr>unread := []\<rparr>)
      else (let line = takeWhile (\<lambda>c. c \<noteq> NL) (unread s)
            in if MaxScanTokenSize \<le> length line
               then (None, \<lparr>unread = take MaxScanTokenSize (unread s), tooLong = True\<rparr>)
               else (Some (dropCR line), s\<lparr>unread := drop (length line + 1) (unread s)\<rparr>)))"

text \<open>The tokens of a loop \<^verbatim>\<open>for scanner.Scan() { ... scanner.Text() ... }\<close>.\<close>

function scanLoop :: "Scanner \<Rightarrow> string list" where
  "scanLoop s = (case Scan s of (None, s') \<Rightarrow> [] | (Some token, s') \<Rightarrow> token # scanLoop s')"
  by pat_completeness auto
termination
  by (relation "measure (\<lambda>s. length (unread s))")
    (auto simp: Scan_def Let_def split: if_splits)

declare scanLoop.simps [simp del]

text \<open>The tokens of such a loop over a new scanner.\<close>

definition ScanLines :: "string \<Rightarrow> string list" where
  "ScanLines data = scanLoop (NewScanner data)"

text \<open>The class \<^verbatim>\<open>\s\<close> of \<^verbatim>\<open>regexp\<close>: tab, line feed, form feed, carriage return, space.\<close>

definition reSpace :: "char \<Rightarrow> bool" where
  "reSpace c = (c \<in> set [CHR 0x09, NL, CHR 0x0C, CR, CHR '' ''])"

text \<open>
  \<^verbatim>\<open>FindStringSubmatch\<close> for the two fixed patterns of lines 347-348,
  \<^verbatim>\<open>\/\/template:begin\s(.*?)$\<close> and \<^verbatim>\<open>\/\/template:end\s(.*?)$\<close>; \<open>tok\<close> is the literal
  text in front of \<^verbatim>\<open>\s\<close>. The pattern is not anchored at the start and \<^verbatim>\<open>$\<close> is the end of
  the text, so the leftmost match starts at the first position where \<open>tok\<close> and a space
  character are followed by text without line feed (which \<^verbatim>\<open>.\<close> does not match), and the
  group is all of that text. The result is the empty list (Go's \<^verbatim>\<open>nil\<close>) when nothing
  matches, and the match followed by the group otherwise.
\<close>

fun FindStringSubmatch :: "string \<Rightarrow> string \<Rightarrow> string list" where
  "FindStringSubmatch tok [] = []"
| "FindStringSubmatch tok (c # s) =
     (let rest = drop (length tok) (c # s)
      in if take (length tok) (c # s) = tok \<and> rest \<noteq> [] \<and> reSpace (hd rest)
            \<and> NL \<notin> set (tl rest)
         then [c # s, tl rest]
         else FindStringSubmatch tok s)"

definition beginRegex :: "string \<Rightarrow> string list" where
  "beginRegex line = FindStringSubmatch ''//template:begin'' line"

definition endRegex :: "string \<Rightarrow> string list" where
  "endRegex line = FindStringSubmatch ''//template:end'' line"

subsection \<open>\<^verbatim>\<open>getTemplateSection\<close> (lines 286-309)\<close>

text \<open>
  The two patterns of \<^verbatim>\<open>getTemplateSection\<close> are built from the section name, which is
  spliced in unescaped, so what they match depends on the name as a regular expression.
  \<^verbatim>\<open>regexp.MustCompile\<close> is therefore a parameter: it maps a pattern to the
  \<^verbatim>\<open>MatchString\<close> function of the compiled expression, or to \<open>None\<close> when it panics.
\<close>

type_synonym regexp = "string \<Rightarrow> bool"

type_synonym compiler = "string \<Rightarrow> regexp option"

abbreviation backslash :: char where
  "backslash \<equiv> CHR 0x5C"

definition beginPattern :: "string \<Rightarrow> string" where
  "beginPattern name =
     [backslash, CHR ''/'', backslash, CHR ''/''] @ ''template:begin'' @ [backslash, CHR ''s'']
       @ name @ ''$''"

definition endPattern :: "string \<Rightarrow> string" where
  "endPattern name =
     [backslash, CHR ''/'', backslash, CHR ''/''] @ ''template:end'' @ [backslash, CHR ''s'']
       @ name @ ''$''"

text \<open>The loop of lines 292-307 over the tokens of the scanner.\<close>

fun sectionLoop :: "regexp \<Rightarrow> regexp \<Rightarrow> bool \<Rightarrow> string \<Rightarrow> string list \<Rightarrow> string" where
  "sectionLoop beginRe endRe foundSection result [] = result"
| "sectionLoop beginRe endRe foundSection result (line # lines) =
     (if \<not> foundSection
      then (if beginRe line
            then sectionLoop beginRe endRe True (result @ line @ [NL]) lines
            else sectionLoop beginRe endRe foundSection result lines)
      else (if endRe line
            then sectionLoop beginRe endRe False (result @ line @ [NL]) lines
            else sectionLoop beginRe endRe foundSection (result @ line @ [NL]) lines))"

definition getTemplateSection :: "compiler \<Rightarrow> string \<Rightarrow> string \<Rightarrow> string option" where
  "getTemplateSection MustCompile content name =
     (case MustCompile (beginPattern name) of
        None \<Rightarrow> None
      | Some beginRe \<Rightarrow>
          (case MustCompile (endPattern name) of
             None \<Rightarrow> None
           | Some endRe \<Rightarrow> Some (sectionLoop beginRe endRe False [] (ScanLines content))))"

subsection \<open>The merge with the existing file (lines 344-367)\<close>

text \<open>
  The loop of lines 349-366 over the tokens of the existing file. \<open>output\<close> is the freshly
  rendered text; the result is the final \<open>newContent\<close> and \<open>currentSectionName\<close>, or \<open>None\<close>
  when \<^verbatim>\<open>getTemplateSection\<close> panics.
\<close>

fun mergeLoop ::
  "compiler \<Rightarrow> string \<Rightarrow> string \<Rightarrow> string \<Rightarrow> string list \<Rightarrow> (string \<times> string) option" where
  "mergeLoop MustCompile output currentSectionName newContent [] =
     Some (newContent, currentSectionName)"
| "mergeLoop MustCompile output currentSectionName newContent (line # lines) =
     (if currentSectionName = []
      then (let matches = beginRegex line
            in if length matches > 1 \<and> matches ! 1 \<noteq> []
               then mergeLoop MustCompile output (matches ! 1) newContent lines
               else mergeLoop MustCompile output currentSectionName
                      (newContent @ line @ [NL]) lines)
      else (let matches = endRegex line
            in if length matches > 1 \<and> matches ! 1 = currentSectionName
               then (case getTemplateSection MustCompile output (matches ! 1) of
                       None \<Rightarrow> None
                     | Some newSection \<Rightarrow>
                         mergeLoop MustCompile output [] (newContent @ newSection) lines)
               else mergeLoop MustCompile output currentSectionName newContent lines))"

text \<open>
  The two tests of the loop on a line: that of line 353, with the name that line 354
  takes from the match, and that of line 360 against the open section \<open>name\<close>.
\<close>

definition opensSection :: "string \<Rightarrow> bool" where
  "opensSection line = (length (beginRegex line) > 1 \<and> beginRegex line ! 1 \<noteq> [])"

definition sectionName :: "string \<Rightarrow> string" where
  "sectionName line = beginRegex line ! 1"

definition closesSection :: "string \<Rightarrow> string \<Rightarrow> bool" where
  "closesSection name line = (length (endRegex line) > 1 \<and> endRegex line ! 1 = name)"

text \<open>\<^verbatim>\<open>regexp.MustCompile\<close> does not panic on the patterns that the merge builds from the
  lines \<open>E\<close> in which the pattern of line 348 finds a name.\<close>

definition compilesMarkers :: "compiler \<Rightarrow> string list \<Rightarrow> bool" where
  "compilesMarkers MustCompile E =
     (\<forall>line\<in>set E. length (endRegex line) > 1 \<longrightarrow>
        MustCompile (beginPattern (endRegex line ! 1)) \<noteq> None
        \<and> MustCompile (endPattern (endRegex line ! 1)) \<noteq> None)"

subsection \<open>\<^verbatim>\<open>renderTemplate\<close> (lines 311-375)\<close>

text \<open>
  The file system is a map from paths to contents, the listing of each directory, and the
  paths at which \<^verbatim>\<open>os.Create\<close> succeeds. A path is the string that the program passes;
  \<^verbatim>\<open>filepath.Join\<close> with one argument and \<^verbatim>\<open>filepath.Clean\<close> do not change the file that
  a path names. Directories (\<^verbatim>\<open>os.MkdirAll\<close>, whose error the program ignores) and a
  failing \<^verbatim>\<open>Write\<close> (ignored as well) are outside the model.
\<close>

record filesystem =
  files :: "string \<rightharpoonup> string"
  entries :: "string \<Rightarrow> string list"
  creatable :: "string \<Rightarrow> bool"

text \<open>Every \<^verbatim>\<open>log.Fatalf\<close> of the program, and the panic of \<^verbatim>\<open>regexp.MustCompile\<close>.\<close>

datatype error =
  ErrorOpeningTemplate
  | ErrorParsingTemplate
  | ErrorExecutingTemplate
  | ErrorCreatingOutputFile
  | ErrorReadingFile
  | ErrorParsingYaml
  | ErrorReadingChangelog
  | PanicMustCompile

text \<open>The three kinds of data that \<^verbatim>\<open>main\<close> passes as \<^verbatim>\<open>config interface{}\<close>.\<close>

datatype templateData =
  ConfigData YamlConfig
  | ProviderData "string list"
  | ChangelogData string

text \<open>
  The libraries that are not part of the repository: the functions of \<^verbatim>\<open>strings\<close> that
  depend on Unicode, \<^verbatim>\<open>yaml.Unmarshal\<close> into an empty
  \<^verbatim>\<open>YamlConfig\<close>, \<^verbatim>\<open>Parse\<close> and \<^verbatim>\<open>Execute\<close> of \<^verbatim>\<open>text/template\<close> (with the function map
  of lines 237-247 bound), and \<^verbatim>\<open>regexp.MustCompile\<close>. \<open>None\<close> is an error, for the
  last one a panic.
\<close>

record 'tmpl library =
  go_strings :: strings
  yaml_Unmarshal :: "string \<Rightarrow> YamlConfig option"
  template_Parse :: "string \<Rightarrow> string \<Rightarrow> 'tmpl option"
  template_Execute :: "'tmpl \<Rightarrow> templateData \<Rightarrow> string option"
  regexp_MustCompile :: compiler

text \<open>\<^verbatim>\<open>path.Base\<close>: the last element of a path, trailing slashes removed.\<close>

definition path_Base :: "string \<Rightarrow> string" where
  "path_Base p =
     (if p = [] then ''.''
      else (let p1 = rev (dropWhile (\<lambda>c. c = CHR ''/'') (rev p));
                p2 = rev (takeWhile (\<lambda>c. c \<noteq> CHR ''/'') (rev p1))
            in if p2 = [] then ''/'' else p2))"

text \<open>Lines 318-326: the text that is handed to the parser, from the content of the
  template file. For a path with the suffix \<^verbatim>\<open>.go\<close> the scanner is advanced once and the
  result of that call is not looked at.\<close>

definition readTemplate :: "string \<Rightarrow> string \<Rightarrow> string" where
  "readTemplate templatePath file =
     (let scanner = NewScanner file;
          scanner' = (if HasSuffix templatePath ''.go'' then snd (Scan scanner) else scanner)
      in foldl (\<lambda>temp line. temp @ line @ [NL]) [] (scanLoop scanner'))"

text \<open>Lines 339-368: the bytes to write, from the rendered output and the existing file.\<close>

definition mergeExisting :: "compiler \<Rightarrow> string \<Rightarrow> string \<Rightarrow> string option \<Rightarrow> string option" where
  "mergeExisting MustCompile templatePath output existingFile =
     (case existingFile of
        None \<Rightarrow> Some output
      | Some existing \<Rightarrow>
          if HasSuffix templatePath ''.go''
          then map_option fst (mergeLoop MustCompile output [] [] (ScanLines existing))
          else Some output)"

definition renderTemplate ::
  "'tmpl library \<Rightarrow> string \<Rightarrow> string \<Rightarrow> templateData \<Rightarrow> filesystem
    \<Rightarrow> filesystem \<times> error option" where
  "renderTemplate lib templatePath outputPath config fs =
     (case files fs templatePath of
        None \<Rightarrow> (fs, Some ErrorOpeningTemplate)
      | Some file \<Rightarrow>
          (case template_Parse lib (path_Base templatePath) (readTemplate templatePath file) of
             None \<Rightarrow> (fs, Some ErrorParsingTemplate)
           | Some template \<Rightarrow>
               (case template_Execute lib template config of
                  None \<Rightarrow> (fs, Some ErrorExecutingTemplate)
                | Some output \<Rightarrow>
                    (case mergeExisting (regexp_MustCompile lib) templatePath output
                            (files fs outputPath) of
                       None \<Rightarrow> (fs, Some PanicMustCompile)
                     | Some output' \<Rightarrow>
                         if creatable fs outputPath
                         then (fs\<lparr>files := (files fs)(outputPath \<mapsto> output')\<rparr>, None)
                         else (fs, Some ErrorCreatingOutputFile)))))"

subsection \<open>\<^verbatim>\<open>main\<close> (lines 38-94 and 377-417)\<close>

definition definitionsPath :: string where
  "definitionsPath = ''./gen/definitions/''"

definition providerTemplate :: string where
  "providerTemplate = ''./gen/templates/provider.go''"

definition providerLocation :: string where
  "providerLocation = ''./internal/provider/provider.go''"

definition changelogTemplate :: string where
  "changelogTemplate = ''./gen/templates/changelog.md.tmpl''"

definition changelogLocation :: string where
  "changelogLocation = ''./templates/guides/changelog.md.tmpl''"

definition changelogOriginal :: string where
  "changelogOriginal = ''./CHANGELOG.md''"

text \<open>The struct \<^verbatim>\<open>t\<close> of lines 47-51; its fields carry the prefix \<open>t_\<close>.\<close>

record t =
  t_path :: string
  t_prefix :: string
  t_suffix :: string

definition templates :: "t list" where
  "templates =
     [\<lparr>t_path = ''./gen/templates/model.go'',
       t_prefix = ''./internal/provider/model_fmc_'', t_suffix = ''.go''\<rparr>,
      \<lparr>t_path = ''./gen/templates/data_source.go'',
       t_prefix = ''./internal/provider/data_source_fmc_'', t_suffix = ''.go''\<rparr>,
      \<lparr>t_path = ''./gen/templates/data_source_test.go'',
       t_prefix = ''./internal/provider/data_source_fmc_'', t_suffix = ''_test.go''\<rparr>,
      \<lparr>t_path = ''./gen/templates/resource.go'',
       t_prefix = ''./internal/provider/resource_fmc_'', t_suffix = ''.go''\<rparr>,
      \<lparr>t_path = ''./gen/templates/resource_test.go'',
       t_prefix = ''./internal/provider/resource_fmc_'', t_suffix = ''_test.go''\<rparr>,
      \<lparr>t_path = ''./gen/templates/data-source.tf'',
       t_prefix = ''./examples/data-sources/fmc_'', t_suffix = ''/data-source.tf''\<rparr>,
      \<lparr>t_path = ''./gen/templates/resource.tf'',
       t_prefix = ''./examples/resources/fmc_'', t_suffix = ''/resource.tf''\<rparr>,
      \<lparr>t_path = ''./gen/templates/import.sh'',
       t_prefix = ''./examples/resources/fmc_'', t_suffix = ''/import.sh''\<rparr>]"

text \<open>The first loop of \<^verbatim>\<open>main\<close> (lines 384-396): read and parse every definition; the
  first failure ends the run.\<close>

fun loadConfigs :: "'tmpl library \<Rightarrow> filesystem \<Rightarrow> string list \<Rightarrow> error + YamlConfig list" where
  "loadConfigs lib fs [] = Inr []"
| "loadConfigs lib fs (filename # filenames) =
     (case files fs (definitionsPath @ filename) of
        None \<Rightarrow> Inl ErrorReadingFile
      | Some yamlFile \<Rightarrow>
          (case yaml_Unmarshal lib yamlFile of
             None \<Rightarrow> Inl ErrorParsingYaml
           | Some config \<Rightarrow>
               (case loadConfigs lib fs filenames of
                  Inl err \<Rightarrow> Inl err
                | Inr configs \<Rightarrow> Inr (config # configs))))"

text \<open>The loop over the templates (lines 403-405) for one augmented configuration.\<close>

fun renderTemplates ::
  "'tmpl library \<Rightarrow> YamlConfig \<Rightarrow> t list \<Rightarrow> filesystem \<Rightarrow> filesystem \<times> error option" where
  "renderTemplates lib config [] fs = (fs, None)"
| "renderTemplates lib config (t # ts) fs =
     (case renderTemplate lib (t_path t)
             (t_prefix t @ SnakeCase (go_strings lib) (Name config) @ t_suffix t)
             (ConfigData config) fs of
        (fs', Some err) \<Rightarrow> (fs', Some err)
      | (fs', None) \<Rightarrow> renderTemplates lib config ts fs')"

text \<open>The second loop of \<^verbatim>\<open>main\<close> (lines 398-407); the result carries \<open>providerConfig\<close>.\<close>

fun renderConfigs ::
  "'tmpl library \<Rightarrow> YamlConfig list \<Rightarrow> string list \<Rightarrow> filesystem
    \<Rightarrow> (filesystem \<times> error option) \<times> string list" where
  "renderConfigs lib [] providerConfig fs = ((fs, None), providerConfig)"
| "renderConfigs lib (config # configs) providerConfig fs =
     (let config' = augmentConfig (go_strings lib) config
      in case renderTemplates lib config' templates fs of
           (fs', Some err) \<Rightarrow> ((fs', Some err), providerConfig)
         | (fs', None) \<Rightarrow> renderConfigs lib configs (providerConfig @ [Name config']) fs')"

definition main :: "'tmpl library \<Rightarrow> filesystem \<Rightarrow> filesystem \<times> error option" where
  "main lib fs =
     (case loadConfigs lib fs (entries fs definitionsPath) of
        Inl err \<Rightarrow> (fs, Some err)
      | Inr configs \<Rightarrow>
          (case renderConfigs lib configs [] fs of
             ((fs1, Some err), providerConfig) \<Rightarrow> (fs1, Some err)
           | ((fs1, None), providerConfig) \<Rightarrow>
               (case renderTemplate lib providerTemplate providerLocation
                       (ProviderData providerConfig) fs1 of
                  (fs2, Some err) \<Rightarrow> (fs2, Some err)
                | (fs2, None) \<Rightarrow>
                    (case files fs2 changelogOriginal of
                       None \<Rightarrow> (fs2, Some ErrorReadingChangelog)
                     | Some changelog \<Rightarrow>
                         renderTemplate lib changelogTemplate changelogLocation
                           (ChangelogData changelog) fs2))))"

section \<open>Properties\<close>

subsection \<open>Definitions that follow the specification\<close>

text \<open>
  \<^verbatim>\<open>DeriveBoundaryWords\<close> as the specification words it: while \<open>s\<close> is not empty, find the
  first uppercase letter at position 1 or later; if it is found at offset \<open>k\<close> behind the
  first character, the next word is the first \<open>k + 1\<close> characters of \<open>s\<close>, otherwise it is
  all of \<open>s\<close>; the word is lowercased and \<open>s\<close> becomes the rest. The words are joined with
  an underscore.
\<close>

function boundaryWords :: "strings \<Rightarrow> string \<Rightarrow> string list" where
  "boundaryWords strings s =
     (if s = [] then []
      else (let k = IndexUpper strings (tl s)
            in if 0 \<le> k
               then ToLower strings (take (nat k + 1) s)
                      # boundaryWords strings (drop (nat k + 1) s)
               else [ToLower strings s]))"
  by pat_completeness auto
termination
  by (relation "measure (\<lambda>(strings, s). length s)") auto

declare boundaryWords.simps [simp del]

definition DeriveBoundaryWords :: "strings \<Rightarrow> string \<Rightarrow> string" where
  "DeriveBoundaryWords strings s = Join (boundaryWords strings s) ''_''"

text \<open>
  What the Unicode functions do on ASCII text, for the examples: on a string of bytes below
  \<^verbatim>\<open>0x80\<close> the uppercase letters are \<^verbatim>\<open>A\<close> to \<^verbatim>\<open>Z\<close>, lowercasing maps them to \<^verbatim>\<open>a\<close> to
  \<^verbatim>\<open>z\<close> and leaves every other byte, and the space characters are tab, line feed,
  vertical tab, form feed, carriage return and space. \<open>agreesOnASCII strings\<close> says that a
  package does this on ASCII strings, as Go's package does.
\<close>

definition ASCII :: "string \<Rightarrow> bool" where
  "ASCII s = list_all (\<lambda>c. \<not> digit7 c) s"

definition asciiIsUpper :: "char \<Rightarrow> bool" where
  "asciiIsUpper c = (c \<in> set ''ABCDEFGHIJKLMNOPQRSTUVWXYZ'')"

definition asciiToLowerChar :: "char \<Rightarrow> char" where
  "asciiToLowerChar c =
     (case map_of (zip ''ABCDEFGHIJKLMNOPQRSTUVWXYZ'' ''abcdefghijklmnopqrstuvwxyz'') c of
        Some l \<Rightarrow> l
      | None \<Rightarrow> c)"

fun asciiIndexUpper :: "string \<Rightarrow> int" where
  "asciiIndexUpper [] = - 1"
| "asciiIndexUpper (c # s) =
     (if asciiIsUpper c then 0
      else (let i = asciiIndexUpper s in if i < 0 then - 1 else i + 1))"

definition asciiIsSpace :: "char \<Rightarrow> bool" where
  "asciiIsSpace c = (c \<in> set [CHR 0x09, NL, CHR 0x0B, CHR 0x0C, CR, CHR '' ''])"

fun asciiFieldsFrom :: "string \<Rightarrow> string \<Rightarrow> string list" where
  "asciiFieldsFrom cur [] = (if cur = [] then [] else [cur])"
| "asciiFieldsFrom cur (c # s) =
     (if asciiIsSpace c then (if cur = [] then asciiFieldsFrom [] s else cur # asciiFieldsFrom [] s)
      else asciiFieldsFrom (cur @ [c]) s)"

definition asciiStrings :: strings where
  "asciiStrings =
     \<lparr>IndexUpper = asciiIndexUpper, ToLower = map asciiToLowerChar,
      Fields = asciiFieldsFrom []\<rparr>"

definition agreesOnASCII :: "strings \<Rightarrow> bool" where
  "agreesOnASCII strings =
     (\<forall>s. ASCII s \<longrightarrow>
        IndexUpper strings s = asciiIndexUpper s \<and> ToLower strings s = map asciiToLowerChar s)"

text \<open>Every attribute of a tree of attributes: the attributes of the sequence, each followed
  by all attributes nested in it, at any depth.\<close>

function allAttributes :: "YamlConfigAttribute list \<Rightarrow> YamlConfigAttribute list" where
  "allAttributes [] = []"
| "allAttributes (attr # attributes) =
     attr # allAttributes (Attributes attr) @ allAttributes attributes"
  by pat_completeness auto
termination
proof (relation "measure (size_list size)")
  show "wf (measure (size_list (size :: YamlConfigAttribute \<Rightarrow> nat)))"
    by simp
next
  fix attr :: YamlConfigAttribute and attributes :: "YamlConfigAttribute list"
  show "(Attributes attr, attr # attributes) \<in> measure (size_list size)"
    using size_Attributes_less [of attr] by simp
next
  fix attr :: YamlConfigAttribute and attributes :: "YamlConfigAttribute list"
  show "(attributes, attr # attributes) \<in> measure (size_list size)"
    by simp
qed

text \<open>The zero value \<^verbatim>\<open>YamlConfig{}\<close> with its name, its two descriptions and its
  attributes set.\<close>

definition mkConfig ::
  "string \<Rightarrow> string \<Rightarrow> string \<Rightarrow> YamlConfigAttribute list \<Rightarrow> YamlConfig" where
  "mkConfig name dsDescription resDescription attributes =
     \<lparr>Name = name, RestEndpoint = [], PutCreate = False, NoUpdate = False, NoDelete = False,
      DataSourceNameQuery = False, MinimumVersion = [], DsDescription = dsDescription,
      ResDescription = resDescription, DocCategory = [], ConfigExcludeTest = False,
      SkipMinimumTest = False, ConfigAttributes = attributes, ConfigTestTags = [],
      TestPrerequisites = []\<rparr>"

text \<open>A text as the sequence of its lines, each ended by a line feed.\<close>

definition joinLines :: "string list \<Rightarrow> string" where
  "joinLines ls = concat (map (\<lambda>l. l @ [NL]) ls)"

text \<open>The lines of a text: the pieces between its line feeds, a last piece without line
  feed when it is not empty.\<close>

function textLines :: "string \<Rightarrow> string list" where
  "textLines data =
     (if data = [] then []
      else (let line = takeWhile (\<lambda>c. c \<noteq> NL) data
            in line # textLines (drop (length line + 1) data)))"
  by pat_completeness auto
termination
  by (relation "measure length") auto

declare textLines.simps [simp del]

text \<open>Every line of the text is shorter than the scanner's buffer and none ends with a
  carriage return: the text is read as its lines are.\<close>

definition plainLines :: "string \<Rightarrow> bool" where
  "plainLines text =
     (\<forall>l\<in>set (textLines text). length l < MaxScanTokenSize \<and> (l = [] \<or> last l \<noteq> CR))"

text \<open>
  Rendering hands \<open>text\<close> to the parser: what \<^verbatim>\<open>renderTemplate\<close> returns is fixed by what
  the parser makes of \<open>text\<close> and, when it accepts it, by what executing the template gives;
  with no prior output file the executed text is written as it is.
\<close>

definition parsesText ::
  "'tmpl library \<Rightarrow> string \<Rightarrow> string \<Rightarrow> templateData \<Rightarrow> filesystem \<Rightarrow> string \<Rightarrow> bool" where
  "parsesText lib templatePath outputPath config fs text =
     (case template_Parse lib (path_Base templatePath) text of
        None \<Rightarrow>
          renderTemplate lib templatePath outputPath config fs = (fs, Some ErrorParsingTemplate)
      | Some template \<Rightarrow>
          (case template_Execute lib template config of
             None \<Rightarrow>
               renderTemplate lib templatePath outputPath config fs
                 = (fs, Some ErrorExecutingTemplate)
           | Some output \<Rightarrow>
               files fs outputPath = None \<and> creatable fs outputPath \<longrightarrow>
                 renderTemplate lib templatePath outputPath config fs
                   = (fs\<lparr>files := (files fs)(outputPath \<mapsto> output)\<rparr>, None)))"

text \<open>
  The marked-section protocol of the specification: a begin-marker line is the begin token
  followed by the section name, an end-marker line the end token followed by the same name,
  each occupying the whole line; a section name is not empty and has no whitespace
  character. The tokens are those of the generated files, \<^verbatim>\<open>//template:begin\<close> and
  \<^verbatim>\<open>//template:end\<close> with one space.
\<close>

definition whitespace :: "char \<Rightarrow> bool" where
  "whitespace c = (c \<in> set [CHR 0x09, NL, CHR 0x0B, CHR 0x0C, CR, CHR '' ''])"

definition validName :: "string \<Rightarrow> bool" where
  "validName name = (name \<noteq> [] \<and> (\<forall>c\<in>set name. \<not> whitespace c))"

definition beginLine :: "string \<Rightarrow> string" where
  "beginLine name = ''//template:begin '' @ name"

definition endLine :: "string \<Rightarrow> string" where
  "endLine name = ''//template:end '' @ name"

definition beginMarkerName :: "string \<Rightarrow> string option" where
  "beginMarkerName line =
     (if take 17 line = ''//template:begin '' \<and> validName (drop 17 line)
      then Some (drop 17 line) else None)"

definition endMarkerName :: "string \<Rightarrow> string option" where
  "endMarkerName line =
     (if take 15 line = ''//template:end '' \<and> validName (drop 15 line)
      then Some (drop 15 line) else None)"

text \<open>
  The token \<open>tok\<close> occurs in the line, followed by a whitespace character. The lines \<open>E\<close>
  carry marker text only as whole-line markers: a line in which one of the two tokens
  (without its space) occurs in front of a whitespace character is a marker line of that
  kind.
\<close>

fun containsToken :: "string \<Rightarrow> string \<Rightarrow> bool" where
  "containsToken tok [] = False"
| "containsToken tok (c # s) =
     ((take (length tok) (c # s) = tok \<and> drop (length tok) (c # s) \<noteq> []
        \<and> whitespace (hd (drop (length tok) (c # s))))
      \<or> containsToken tok s)"

definition wholeLineMarkers :: "string list \<Rightarrow> bool" where
  "wholeLineMarkers E =
     (\<forall>l\<in>set E.
        (containsToken ''//template:begin'' l \<longrightarrow> beginMarkerName l \<noteq> None)
        \<and> (containsToken ''//template:end'' l \<longrightarrow> endMarkerName l \<noteq> None))"

text \<open>
  A marked section of the lines \<open>E\<close> runs from a begin-marker line \<open>i\<close> to the first
  end-marker line \<open>j\<close> after it that carries the same name. A line lies outside all marked
  sections when no marked section contains its position.
\<close>

definition markedSection :: "string list \<Rightarrow> nat \<Rightarrow> nat \<Rightarrow> bool" where
  "markedSection E i j =
     (i < j \<and> j < length E \<and> beginMarkerName (E ! i) \<noteq> None
      \<and> endMarkerName (E ! j) = beginMarkerName (E ! i)
      \<and> (\<forall>m<j. i < m \<longrightarrow> endMarkerName (E ! m) \<noteq> beginMarkerName (E ! i)))"

definition outsideSections :: "string list \<Rightarrow> nat \<Rightarrow> bool" where
  "outsideSections E k = (\<not> (\<exists>j<length E. \<exists>i<j. markedSection E i j \<and> i \<le> k \<and> k \<le> j))"

definition outsideLines :: "string list \<Rightarrow> string list" where
  "outsideLines E = map (\<lambda>k. E ! k) (filter (outsideSections E) [0..<length E])"

text \<open>Every begin-marker line is followed by an end-marker line with the same name.\<close>

definition sectionsTerminated :: "string list \<Rightarrow> bool" where
  "sectionsTerminated E =
     (\<forall>i<length E. beginMarkerName (E ! i) \<noteq> None \<longrightarrow>
        (\<exists>j<length E. i < j \<and> endMarkerName (E ! j) = beginMarkerName (E ! i)))"

text \<open>
  The section extractor of the specification on the lines \<open>R\<close>: the begin line of the name,
  the interior lines and the end line, or nothing when the name is absent.
\<close>

definition extractSection :: "string list \<Rightarrow> string \<Rightarrow> string list" where
  "extractSection R name =
     (case dropWhile (\<lambda>l. l \<noteq> beginLine name) R of
        [] \<Rightarrow> []
      | b # rest \<Rightarrow>
          if endLine name \<in> set rest
          then b # takeWhile (\<lambda>l. l \<noteq> endLine name) rest @ [endLine name]
          else [])"

text \<open>
  The merge engine of the specification as a scan with two states over the lines of the
  prior file: outside, a begin-marker line opens its section and is not copied, every
  other line is copied; inside, every line is discarded until the end-marker line of the
  open section, where the section's block from the rendered text is appended. At the end
  of the lines the result is what has been collected.
\<close>

datatype scanState = Outside | InSection string

fun MergeEngine :: "(string \<Rightarrow> string list) \<Rightarrow> scanState \<Rightarrow> string list \<Rightarrow> string list" where
  "MergeEngine extract state [] = []"
| "MergeEngine extract Outside (line # E) =
     (case beginMarkerName line of
        Some name \<Rightarrow> MergeEngine extract (InSection name) E
      | None \<Rightarrow> line # MergeEngine extract Outside E)"
| "MergeEngine extract (InSection name) (line # E) =
     (if endMarkerName line = Some name then extract name @ MergeEngine extract Outside E
      else MergeEngine extract (InSection name) E)"

text \<open>The variable \<^verbatim>\<open>currentSectionName\<close> of the loop in a state of the scan.\<close>

fun currentSectionName :: "scanState \<Rightarrow> string" where
  "currentSectionName Outside = []"
| "currentSectionName (InSection name) = name"

text \<open>
  The marked sections of the lines \<open>R\<close> are closed, not nested and distinctly named: outside
  a section a begin-marker line opens a section whose name has not occurred (\<open>seen\<close> holds
  the names so far); inside a section the only marker line is its end-marker line; the
  lines do not end inside a section.
\<close>

fun closedSections :: "string list \<Rightarrow> scanState \<Rightarrow> string list \<Rightarrow> bool" where
  "closedSections seen Outside [] = True"
| "closedSections seen (InSection name) [] = False"
| "closedSections seen Outside (line # R) =
     (case beginMarkerName line of
        Some name \<Rightarrow> name \<notin> set seen \<and> closedSections (name # seen) (InSection name) R
      | None \<Rightarrow> closedSections seen Outside R)"
| "closedSections seen (InSection name) (line # R) =
     (if endMarkerName line = Some name then closedSections seen Outside R
      else beginMarkerName line = None \<and> endMarkerName line = None
           \<and> closedSections seen (InSection name) R)"

text \<open>
  The two patterns that \<^verbatim>\<open>getTemplateSection\<close> builds from \<open>name\<close> compile, and on the lines
  \<open>R\<close> they match the begin line and the end line of that name and nothing else.
\<close>

definition matchesLiterally :: "compiler \<Rightarrow> string list \<Rightarrow> string \<Rightarrow> bool" where
  "matchesLiterally MustCompile R name =
     (\<exists>beginRe endRe. MustCompile (beginPattern name) = Some beginRe
        \<and> MustCompile (endPattern name) = Some endRe
        \<and> (\<forall>l\<in>set R. beginRe l = (l = beginLine name))
        \<and> (\<forall>l\<in>set R. endRe l = (l = endLine name)))"

subsection \<open>Stand-ins for the libraries in concrete runs\<close>

text \<open>
  A compiler for the patterns of \<^verbatim>\<open>getTemplateSection\<close> whose section name consists of
  letters, digits and underscores: the pattern then matches the lines that end with the
  marker, a space character and the name. It panics on every other pattern.
\<close>

definition wordChar :: "char \<Rightarrow> bool" where
  "wordChar c =
     (c \<in> set ''abcdefghijklmnopqrstuvwxyzABCDEFGHIJKLMNOPQRSTUVWXYZ0123456789_'')"

definition endsWithMarker :: "string \<Rightarrow> string \<Rightarrow> string \<Rightarrow> bool" where
  "endsWithMarker tok name line =
     (let n = length tok + 1 + length name;
          tail = drop (length line - n) line
      in n \<le> length line \<and> take (length tok) tail = tok \<and> reSpace (tail ! length tok)
         \<and> drop (length tok + 1) tail = name)"

definition literalCompile :: compiler where
  "literalCompile pattern =
     (if take (length (beginPattern [])  - 1) pattern = butlast (beginPattern [])
         \<and> pattern \<noteq> butlast (beginPattern []) \<and> last pattern = CHR ''$''
         \<and> list_all wordChar (butlast (drop (length (beginPattern []) - 1) pattern))
      then Some (endsWithMarker ''//template:begin''
                   (butlast (drop (length (beginPattern []) - 1) pattern)))
      else if take (length (endPattern []) - 1) pattern = butlast (endPattern [])
         \<and> pattern \<noteq> butlast (endPattern []) \<and> last pattern = CHR ''$''
         \<and> list_all wordChar (butlast (drop (length (endPattern []) - 1) pattern))
      then Some (endsWithMarker ''//template:end''
                   (butlast (drop (length (endPattern []) - 1) pattern)))
      else None)"

text \<open>
  The same compiler, which also knows the two patterns for the name \<^verbatim>\<open>.*\<close>: with that name
  the pattern of \<^verbatim>\<open>getTemplateSection\<close> for the begin line is
  \<^verbatim>\<open>\/\/template:begin\s.*$\<close>, which matches the lines that the pattern of line 347 matches,
  and likewise for the end line.
\<close>

definition wildcardCompile :: compiler where
  "wildcardCompile pattern =
     (if pattern = beginPattern ''.*'' then Some (\<lambda>line. beginRegex line \<noteq> [])
      else if pattern = endPattern ''.*'' then Some (\<lambda>line. endRegex line \<noteq> [])
      else literalCompile pattern)"

text \<open>
  A library for concrete runs: the functions of \<^verbatim>\<open>strings\<close> are those on ASCII text; a
  YAML document is accepted when it is a single line
  \<^verbatim>\<open>name: N\<close>; a template is its own text and renders as that text (a template without
  actions); regular expressions are compiled by \<open>literalCompile\<close>.
\<close>

definition exampleLibrary :: "string library" where
  "exampleLibrary =
     \<lparr>go_strings = asciiStrings,
      yaml_Unmarshal =
        (\<lambda>yamlFile. if HasPrefix yamlFile ''name: '' \<and> NL \<notin> set yamlFile
                     then Some (mkConfig (drop 6 yamlFile) [] [] []) else None),
      template_Parse = (\<lambda>name text. Some text),
      template_Execute = (\<lambda>template config. Some template),
      regexp_MustCompile = literalCompile\<rparr>"

text \<open>
  Concrete texts for the runs below: a rendered text with two marked sections, the template
  whose rendering it is (with the build directive in its first line), an existing file
  with a closed section \<^verbatim>\<open>model\<close>, and one whose section is never closed; a template
  with a line of \<^verbatim>\<open>MaxScanTokenSize\<close> bytes; an existing file with marker text inside a
  comment; a rendered text whose section \<^verbatim>\<open>m\<close> is never closed, with an existing file that
  holds that section; an existing file with a section named \<^verbatim>\<open>.*\<close>; an existing file whose
  marker text shares its lines with other text; an existing file with a section named
  \<^verbatim>\<open>(\<close>, for which the patterns of \<^verbatim>\<open>getTemplateSection\<close> do not compile; a file with a
  carriage return.
\<close>

definition exampleRendered :: string where
  "exampleRendered =
     joinLines [''package provider'', ''//template:begin model'', ''new'',
       ''//template:end model'', ''//template:begin extra'', ''added'', ''//template:end extra'']"

definition exampleTemplate :: string where
  "exampleTemplate = joinLines [''//go:build ignore''] @ exampleRendered"

definition exampleExisting :: string where
  "exampleExisting =
     joinLines [''// kept'', ''//template:begin model'', ''stale'', ''//template:end model'',
       ''// also kept'']"

definition exampleUnterminated :: string where
  "exampleUnterminated =
     joinLines [''// kept'', ''//template:begin model'', ''stale'', ''// lost'']"

definition exampleLongTemplate :: string where
  "exampleLongTemplate =
     joinLines [''a'', replicate MaxScanTokenSize (CHR ''x''), ''b'']"

definition exampleInlineMarker :: string where
  "exampleInlineMarker = joinLines [''a'', ''// see //template:begin model'', ''b'']"

definition exampleOpenRendered :: string where
  "exampleOpenRendered =
     joinLines [''//template:begin m'', ''1'', ''//template:begin n'', ''2'',
       ''//template:end n'']"

definition exampleExistingM :: string where
  "exampleExistingM =
     joinLines [''keep'', ''//template:begin m'', ''old'', ''//template:end m'', ''tail'']"

definition exampleWildcard :: string where
  "exampleWildcard = joinLines [''//template:begin .*'', ''old'', ''//template:end .*'']"

definition exampleInlineSection :: string where
  "exampleInlineSection =
     joinLines [''x //template:begin model'', ''old'', ''y //template:end model'']"

definition exampleParenthesis :: string where
  "exampleParenthesis =
     joinLines [''a'', ''//template:begin ('', ''old'', ''//template:end ('', ''b'']"

definition exampleCarriageReturn :: string where
  "exampleCarriageReturn = joinLines [''a'' @ [CR], ''b'']"

definition exampleTemplateFs :: "string \<Rightarrow> string \<Rightarrow> filesystem" where
  "exampleTemplateFs templatePath template =
     \<lparr>files = [templatePath \<mapsto> template],
      entries = (\<lambda>dir. []),
      creatable = (\<lambda>path. True)\<rparr>"

definition exampleFs :: "string \<Rightarrow> string \<Rightarrow> filesystem" where
  "exampleFs template existing =
     \<lparr>files = [''./gen/templates/model.go'' \<mapsto> template,
               ''./internal/provider/model_fmc_host.go'' \<mapsto> existing],
      entries = (\<lambda>dir. []),
      creatable = (\<lambda>path. True)\<rparr>"

definition exampleDefinitions :: "string \<Rightarrow> filesystem" where
  "exampleDefinitions yamlFile =
     \<lparr>files = [definitionsPath @ ''host.yaml'' \<mapsto> yamlFile],
      entries = (\<lambda>dir. if dir = definitionsPath then [''host.yaml''] else []),
      creatable = (\<lambda>path. True)\<rparr>"

subsection \<open>The predicate scans\<close>

lemma HasId_iff: "HasId attributes \<longleftrightarrow> (\<exists>a\<in>set attributes. Id' a)"
  by (induction attributes) auto

lemma HasReference_iff: "HasReference attributes \<longleftrightarrow> (\<exists>a\<in>set attributes. Reference a)"
  by (induction attributes) auto

lemma HasResourceId_iff:
  "HasResourceId attributes \<longleftrightarrow> (\<exists>a\<in>set (allAttributes attributes). ResourceId a)"
proof (induction attributes rule: HasResourceId.induct)
  case 1
  show ?case by simp
next
  case (2 attr attributes)
  show ?case
  proof (cases "ResourceId attr")
    case True
    then show ?thesis by simp
  next
    case notId: False
    have nested: "HasResourceId (Attributes attr)
        \<longleftrightarrow> (\<exists>a\<in>set (allAttributes (Attributes attr)). ResourceId a)"
      using "2.IH"(1) [OF notId] .
    show ?thesis
    proof (cases "0 < length (Attributes attr) \<and> HasResourceId (Attributes attr)")
      case True
      with nested notId show ?thesis by auto
    next
      case False
      have rest: "HasResourceId attributes
          \<longleftrightarrow> (\<exists>a\<in>set (allAttributes attributes). ResourceId a)"
        using "2.IH"(2) [OF notId False] .
      from False have "\<not> HasResourceId (Attributes attr)"
        by (cases "Attributes attr") auto
      with nested rest notId False show ?thesis by auto
    qed
  qed
qed

text \<open>
  Claim C7. \<^verbatim>\<open>HasReference\<close> is true exactly when an attribute at the top level of the
  sequence has the reference flag, whatever is nested below; \<^verbatim>\<open>HasResourceId\<close> is true
  exactly when an attribute anywhere in the tree has the resource-identifier flag.
\<close>

theorem HasReference_shallow_HasResourceId_deep:
  "(HasReference attributes \<longleftrightarrow> (\<exists>a\<in>set attributes. Reference a))
   \<and> ((\<forall>a\<in>set attributes. \<not> Reference a) \<longrightarrow> \<not> HasReference attributes)
   \<and> (HasResourceId attributes \<longleftrightarrow> (\<exists>a\<in>set (allAttributes attributes). ResourceId a))"
  using HasReference_iff [of attributes] HasResourceId_iff [of attributes] by blast

theorem HasReference_shallow_HasResourceId_deep_witness:
  "\<not> (\<exists>a\<in>set [mkAttribute ''Rules'' [] ''List'' False False False
                  [mkAttribute ''Id'' [] ''String'' False True True []]]. Reference a)
   \<and> \<not> HasReference [mkAttribute ''Rules'' [] ''List'' False False False
                  [mkAttribute ''Id'' [] ''String'' False True True []]]
   \<and> HasResourceId [mkAttribute ''Rules'' [] ''List'' False False False
                  [mkAttribute ''Id'' [] ''String'' False True True []]]"
  using HasReference_shallow_HasResourceId_deep
    [of "[mkAttribute ''Rules'' [] ''List'' False False False
           [mkAttribute ''Id'' [] ''String'' False True True []]]"]
  by (simp add: mkAttribute_def)

text \<open>
  Claim C10. \<^verbatim>\<open>HasId\<close> is true exactly when an attribute at the top level of the sequence
  has the identifier flag; when the flag is set only on nested attributes it is false.
\<close>

theorem HasId_shallow:
  "(HasId attributes \<longleftrightarrow> (\<exists>a\<in>set attributes. Id' a))
   \<and> ((\<forall>a\<in>set attributes. \<not> Id' a) \<and> (\<exists>a\<in>set (allAttributes attributes). Id' a)
        \<longrightarrow> \<not> HasId attributes)"
  using HasId_iff [of attributes] by blast

theorem HasId_shallow_witness:
  "\<not> (\<exists>a\<in>set [mkAttribute ''Rules'' [] ''Set'' False False False
                  [mkAttribute ''Id'' [] ''String'' True False False []]]. Id' a)
   \<and> (\<exists>a\<in>set (allAttributes [mkAttribute ''Rules'' [] ''Set'' False False False
                  [mkAttribute ''Id'' [] ''String'' True False False []]]). Id' a)
   \<and> \<not> HasId [mkAttribute ''Rules'' [] ''Set'' False False False
                  [mkAttribute ''Id'' [] ''String'' True False False []]]"
  using HasId_shallow
    [of "[mkAttribute ''Rules'' [] ''Set'' False False False
           [mkAttribute ''Id'' [] ''String'' True False False []]]"]
  by (simp add: mkAttribute_def)

subsection \<open>The derived external name\<close>

lemma tfNameLoop_boundaryWords:
  "tfNameLoop strings s words = words @ boundaryWords strings s"
proof (induction strings s words rule: tfNameLoop.induct)
  case (1 strings s words)
  show ?case
  proof (cases "s = []")
    case True
    then show ?thesis by (simp add: tfNameLoop.simps boundaryWords.simps)
  next
    case False
    let ?k = "IndexUpper strings (tl s)"
    have tl: "drop (Suc 0) s = tl s" by (simp add: drop_Suc)
    show ?thesis
    proof (cases "0 \<le> ?k")
      case True
      then have l: "nat (?k + 1) = nat ?k + 1" by simp
      have "tfNameLoop strings s words =
              tfNameLoop strings (drop (nat ?k + 1) s)
                (words @ [ToLower strings (take (nat ?k + 1) s)])"
        using False True l by (subst tfNameLoop.simps) (simp add: Let_def tl)
      also have "\<dots> = (words @ [ToLower strings (take (nat ?k + 1) s)])
                        @ boundaryWords strings (drop (nat ?k + 1) s)"
        using "1.IH" [OF False refl refl] True l by (simp add: tl)
      also have "\<dots> = words @ boundaryWords strings s"
        using False True by (subst (2) boundaryWords.simps) (simp add: Let_def)
      finally show ?thesis .
    next
      case neg: False
      have "tfNameLoop strings s words = tfNameLoop strings [] (words @ [ToLower strings s])"
        using False neg by (subst tfNameLoop.simps) (simp add: Let_def tl)
      also have "\<dots> = words @ [ToLower strings s]"
        by (subst tfNameLoop.simps) simp
      also have "\<dots> = words @ boundaryWords strings s"
        using False neg by (subst boundaryWords.simps) (simp add: Let_def)
      finally show ?thesis .
    qed
  qed
qed

lemma ASCII_parts: "ASCII s \<Longrightarrow> ASCII (tl s) \<and> ASCII (take n s) \<and> ASCII (drop n s)"
proof -
  assume "ASCII s"
  then have all: "\<And>c. c \<in> set s \<Longrightarrow> \<not> digit7 c"
    by (simp add: ASCII_def list_all_iff)
  have "set (tl s) \<subseteq> set s" by (cases s) auto
  moreover have "set (take n s) \<subseteq> set s" by (rule set_take_subset)
  moreover have "set (drop n s) \<subseteq> set s" by (rule set_drop_subset)
  ultimately show ?thesis
    unfolding ASCII_def list_all_iff using all by blast
qed

lemma boundaryWords_ascii:
  "agreesOnASCII strings \<Longrightarrow> ASCII s \<Longrightarrow>
   boundaryWords strings s = boundaryWords asciiStrings s"
proof (induction strings s rule: boundaryWords.induct)
  case (1 strings s)
  show ?case
  proof (cases "s = []")
    case True
    then show ?thesis by (simp add: boundaryWords.simps)
  next
    case False
    let ?k = "asciiIndexUpper (tl s)"
    from "1.prems" ASCII_parts [of s] have k: "IndexUpper strings (tl s) = ?k"
      and low: "\<And>n. ToLower strings (take n s) = map asciiToLowerChar (take n s)"
      and whole: "ToLower strings s = map asciiToLowerChar s"
      by (simp_all add: agreesOnASCII_def)
    show ?thesis
    proof (cases "0 \<le> ?k")
      case True
      have "boundaryWords strings (drop (nat ?k + 1) s)
              = boundaryWords asciiStrings (drop (nat ?k + 1) s)"
        using "1.IH" [OF False refl] True k "1.prems" ASCII_parts [of s] by simp
      with False True k low show ?thesis
        by (subst boundaryWords.simps, subst (2) boundaryWords.simps)
          (simp add: Let_def asciiStrings_def)
    next
      case neg: False
      with False k whole show ?thesis
        by (subst boundaryWords.simps, subst (2) boundaryWords.simps)
          (simp add: Let_def asciiStrings_def)
    qed
  qed
qed

lemma boundaryWords_examples:
  "Join (boundaryWords asciiStrings ''HTTPServer'') ''_'' = ''h_t_t_p_server''"
  "Join (boundaryWords asciiStrings ''Id'') ''_'' = ''id''"
  "Join (boundaryWords asciiStrings ''MaxList'') ''_'' = ''max_list''"
  by (simp_all add: boundaryWords.simps asciiStrings_def asciiIsUpper_def
      asciiToLowerChar_def Let_def)

lemma ASCII_examples: "ASCII ''HTTPServer''" "ASCII ''Id''" "ASCII ''MaxList''"
  by (simp_all add: ASCII_def)

lemma TfName_augmentAttribute:
  "TfName (augmentAttribute strings attr) =
     (if TfName attr = [] then Join (tfNameLoop strings (ModelName attr) []) ''_''
      else TfName attr)"
  by (cases attr) (simp only: augmentAttribute.simps YamlConfigAttribute.sel)

text \<open>
  Claim C2. For an attribute without an external name, the name that augmentation derives is
  the specification's segmentation of the model name, for whatever \<^verbatim>\<open>strings.IndexFunc\<close>
  with \<^verbatim>\<open>unicode.IsUpper\<close> and \<^verbatim>\<open>strings.ToLower\<close> compute; with a package that treats
  ASCII text as Go's does, \<^verbatim>\<open>HTTPServer\<close> gives \<^verbatim>\<open>h_t_t_p_server\<close> and \<^verbatim>\<open>Id\<close> gives
  \<^verbatim>\<open>id\<close>.
\<close>

theorem augmentAttribute_derives_boundary_words:
  "(TfName attr = [] \<longrightarrow>
      TfName (augmentAttribute strings attr) = DeriveBoundaryWords strings (ModelName attr))
   \<and> (agreesOnASCII strings \<longrightarrow>
        TfName (augmentAttribute strings (mkAttribute ''HTTPServer'' [] ty i r f nested))
          = ''h_t_t_p_server''
        \<and> TfName (augmentAttribute strings (mkAttribute ''Id'' [] ty i r f nested)) = ''id'')"
proof -
  have general: "TfName a = [] \<longrightarrow>
          TfName (augmentAttribute strings a) = DeriveBoundaryWords strings (ModelName a)" for a
    by (simp add: TfName_augmentAttribute tfNameLoop_boundaryWords DeriveBoundaryWords_def)
  have "DeriveBoundaryWords strings ''HTTPServer'' = ''h_t_t_p_server''"
    and "DeriveBoundaryWords strings ''Id'' = ''id''"
    if "agreesOnASCII strings"
    using boundaryWords_ascii [OF that] ASCII_examples boundaryWords_examples
    by (simp_all add: DeriveBoundaryWords_def)
  with general [of "mkAttribute ''HTTPServer'' [] ty i r f nested"]
    general [of "mkAttribute ''Id'' [] ty i r f nested"] general [of attr]
  show ?thesis by (simp add: mkAttribute_def)
qed

theorem augmentAttribute_derives_boundary_words_witness:
  "TfName (mkAttribute ''MaxList'' [] ''Int64'' False False False []) = []
   \<and> agreesOnASCII asciiStrings
   \<and> TfName (augmentAttribute asciiStrings
          (mkAttribute ''MaxList'' [] ''Int64'' False False False []))
       = DeriveBoundaryWords asciiStrings ''MaxList''
   \<and> DeriveBoundaryWords asciiStrings ''MaxList'' = ''max_list''
   \<and> TfName (augmentAttribute asciiStrings
          (mkAttribute ''HTTPServer'' [] ''String'' False False False [])) = ''h_t_t_p_server''"
proof -
  have agrees: "agreesOnASCII asciiStrings"
    by (simp add: agreesOnASCII_def asciiStrings_def)
  have empty: "TfName (mkAttribute ''MaxList'' [] ''Int64'' False False False []) = []"
    and name: "ModelName (mkAttribute ''MaxList'' [] ''Int64'' False False False []) = ''MaxList''"
    by (simp_all add: mkAttribute_def)
  from augmentAttribute_derives_boundary_words
    [of "mkAttribute ''MaxList'' [] ''Int64'' False False False []" asciiStrings
      "''String''" False False False "[]"] empty agrees
  have "TfName (augmentAttribute asciiStrings
          (mkAttribute ''MaxList'' [] ''Int64'' False False False []))
       = DeriveBoundaryWords asciiStrings ''MaxList''"
    and "TfName (augmentAttribute asciiStrings
          (mkAttribute ''HTTPServer'' [] ''String'' False False False [])) = ''h_t_t_p_server''"
    by (simp_all add: name)
  with empty agrees boundaryWords_examples(3) show ?thesis
    by (simp add: DeriveBoundaryWords_def)
qed

subsection \<open>Idempotence of augmentation\<close>

lemma map_idem:
  "(\<And>x. x \<in> set xs \<Longrightarrow> f (f x) = f x) \<Longrightarrow> map f (map f xs) = map f xs"
  by (induction xs) simp_all

lemma augmentAttribute_idem:
  "augmentAttribute strings (augmentAttribute strings attr) = augmentAttribute strings attr"
proof (induction attr)
  case (YamlConfigAttribute modelName tfName type dataPath isId resourceId
       reference requiresReplace mandatory writeOnly writeChangesOnly excludeTest
       excludeExample description example enumValues minList maxList minInt maxInt minFloat
       maxFloat stringPatterns stringMinLength stringMaxLength defaultValue val testValue
       minimumTestValue testTags attributes)
  let ?d = "Join (tfNameLoop strings modelName []) ''_''"
  let ?tf = "if tfName = [] then ?d else tfName"
  let ?as = "if type = ''List'' \<or> type = ''Set''
             then map (augmentAttribute strings) attributes else attributes"
  have m: "map (augmentAttribute strings) (map (augmentAttribute strings) attributes)
             = map (augmentAttribute strings) attributes"
    by (rule map_idem) (rule YamlConfigAttribute.IH)
  have a: "(if ?tf = [] then ?d else ?tf) = ?tf"
    by (cases "tfName = []") simp_all
  have b: "(if type = ''List'' \<or> type = ''Set''
            then map (augmentAttribute strings) ?as else ?as) = ?as"
    by (cases "type = ''List'' \<or> type = ''Set''") (simp_all only: m if_True if_False)
  show ?case
    by (simp only: augmentAttribute.simps a b)
qed

lemma augmentConfig_normal:
  "augmentConfig strings config =
     config\<lparr>ConfigAttributes := map (augmentAttribute strings) (ConfigAttributes config),
            DsDescription := (if DsDescription config = []
               then ''This data source can read the '' @ Name config @ ''.''
               else DsDescription config),
            ResDescription := (if ResDescription config = []
               then (if HasPrefix (ToLower strings (Name config)) ''a''
                        \<or> HasPrefix (ToLower strings (Name config)) ''e''
                        \<or> HasPrefix (ToLower strings (Name config)) ''i''
                        \<or> HasPrefix (ToLower strings (Name config)) ''o''
                        \<or> HasPrefix (ToLower strings (Name config)) ''u''
                     then ''This resource can manage an '' @ Name config @ ''.''
                     else ''This resource can manage a '' @ Name config @ ''.'')
               else ResDescription config)\<rparr>"
  by (simp add: augmentConfig_def Let_def)

lemma augmentConfig_fields:
  "Name (augmentConfig strings config) = Name config"
  "ConfigAttributes (augmentConfig strings config)
     = map (augmentAttribute strings) (ConfigAttributes config)"
  "DsDescription (augmentConfig strings config) =
     (if DsDescription config = [] then ''This data source can read the '' @ Name config @ ''.''
      else DsDescription config)"
  "ResDescription (augmentConfig strings config) =
     (if ResDescription config = []
      then (if HasPrefix (ToLower strings (Name config)) ''a''
               \<or> HasPrefix (ToLower strings (Name config)) ''e''
               \<or> HasPrefix (ToLower strings (Name config)) ''i''
               \<or> HasPrefix (ToLower strings (Name config)) ''o''
               \<or> HasPrefix (ToLower strings (Name config)) ''u''
            then ''This resource can manage an '' @ Name config @ ''.''
            else ''This resource can manage a '' @ Name config @ ''.'')
      else ResDescription config)"
  by (simp_all add: augmentConfig_normal)

text \<open>
  Claim C4. Augmenting an augmented entity changes nothing: the whole entity, with the
  external names of all its attributes at every depth and both descriptions, is the same,
  whatever the functions of \<^verbatim>\<open>strings\<close> compute.
\<close>

theorem augmentConfig_idempotent:
  "augmentConfig strings (augmentConfig strings config) = augmentConfig strings config"
proof -
  let ?c = "augmentConfig strings config"
  have m: "map (augmentAttribute strings) (ConfigAttributes ?c) = ConfigAttributes ?c"
    unfolding augmentConfig_fields by (rule map_idem) (rule augmentAttribute_idem)
  have ds: "DsDescription ?c \<noteq> []"
    by (simp add: augmentConfig_fields)
  have rs: "ResDescription ?c \<noteq> []"
    by (simp add: augmentConfig_fields)
  have "augmentConfig strings ?c =
          ?c\<lparr>ConfigAttributes := ConfigAttributes ?c, DsDescription := DsDescription ?c,
             ResDescription := ResDescription ?c\<rparr>"
    by (subst augmentConfig_normal) (simp only: m ds rs if_False)
  then show ?thesis by simp
qed

subsection \<open>The synthesized resource description\<close>

text \<open>
  Claim C6. For an entity with an empty resource description, augmentation writes the
  \<^verbatim>\<open>an\<close> form when the name as \<^verbatim>\<open>strings.ToLower\<close> lowercases it starts with one of a, e,
  i, o, u and the \<^verbatim>\<open>a\<close> form otherwise; with a package that treats ASCII text as Go's
  does, \<^verbatim>\<open>Access Policy\<close> gets the first and \<^verbatim>\<open>Rule\<close> the second.
\<close>

theorem augmentConfig_article:
  "(ResDescription config = [] \<longrightarrow>
      ResDescription (augmentConfig strings config) =
        (if (case ToLower strings (Name config) of [] \<Rightarrow> False | c # cs \<Rightarrow> c \<in> set ''aeiou'')
         then ''This resource can manage an '' @ Name config @ ''.''
         else ''This resource can manage a '' @ Name config @ ''.''))
   \<and> (agreesOnASCII strings \<longrightarrow>
        ResDescription (augmentConfig strings (mkConfig ''Access Policy'' ds [] attrs))
          = ''This resource can manage an Access Policy.''
        \<and> ResDescription (augmentConfig strings (mkConfig ''Rule'' ds [] attrs))
          = ''This resource can manage a Rule.'')"
proof -
  have general: "ResDescription c = [] \<longrightarrow>
      ResDescription (augmentConfig strings c) =
        (if (case ToLower strings (Name c) of [] \<Rightarrow> False | x # xs \<Rightarrow> x \<in> set ''aeiou'')
         then ''This resource can manage an '' @ Name c @ ''.''
         else ''This resource can manage a '' @ Name c @ ''.'')" for c
    by (cases "ToLower strings (Name c)") (auto simp: augmentConfig_fields HasPrefix_def)
  have "ToLower strings ''Access Policy'' = ''access policy''"
    and "ToLower strings ''Rule'' = ''rule''"
    if "agreesOnASCII strings"
  proof -
    have "ASCII ''Access Policy''" and "ASCII ''Rule''"
      by (simp_all add: ASCII_def)
    with that show "ToLower strings ''Access Policy'' = ''access policy''"
      and "ToLower strings ''Rule'' = ''rule''"
      by (simp_all add: agreesOnASCII_def asciiToLowerChar_def)
  qed
  with general [of "mkConfig ''Access Policy'' ds [] attrs"]
    general [of "mkConfig ''Rule'' ds [] attrs"] general [of config]
  show ?thesis by (simp add: mkConfig_def)
qed

theorem augmentConfig_article_witness:
  "ResDescription (mkConfig ''interface group'' [] [] []) = []
   \<and> agreesOnASCII asciiStrings
   \<and> ResDescription (augmentConfig asciiStrings (mkConfig ''interface group'' [] [] []))
       = ''This resource can manage an interface group.''
   \<and> ResDescription (augmentConfig asciiStrings (mkConfig ''Rule'' [] [] []))
       = ''This resource can manage a Rule.''"
proof -
  have agrees: "agreesOnASCII asciiStrings"
    by (simp add: agreesOnASCII_def asciiStrings_def)
  have empty: "ResDescription (mkConfig ''interface group'' [] [] []) = []"
    and name: "Name (mkConfig ''interface group'' [] [] []) = ''interface group''"
    by (simp_all add: mkConfig_def)
  have lower: "ToLower asciiStrings ''interface group'' = ''interface group''"
    by (simp add: asciiStrings_def asciiToLowerChar_def)
  from augmentConfig_article
    [of "mkConfig ''interface group'' [] [] []" asciiStrings "[]" "[]"] empty agrees
  have "ResDescription (augmentConfig asciiStrings (mkConfig ''interface group'' [] [] []))
       = ''This resource can manage an interface group.''"
    and "ResDescription (augmentConfig asciiStrings (mkConfig ''Rule'' [] [] []))
       = ''This resource can manage a Rule.''"
    by (simp_all add: name lower)
  with empty agrees show ?thesis by simp
qed

subsection \<open>Lines and the template text\<close>

lemma joinLines_simps [simp]:
  "joinLines [] = []"
  "joinLines (l # ls) = l @ NL # joinLines ls"
  "joinLines (xs @ ys) = joinLines xs @ joinLines ys"
  by (simp_all add: joinLines_def)

lemma foldl_joinLines:
  "foldl (\<lambda>temp line. temp @ line @ [NL]) acc ls = acc @ joinLines ls"
  by (induction ls arbitrary: acc) simp_all

lemma takeWhile_line: "NL \<notin> set line \<Longrightarrow> takeWhile (\<lambda>c. c \<noteq> NL) (line @ NL # rest) = line"
  by (induction line) auto

lemma takeWhile_long:
  "NL \<notin> set line \<Longrightarrow> length line \<le> length (takeWhile (\<lambda>c. c \<noteq> NL) (line @ rest))"
  by (induction line) auto

lemma dropCR_no_NL: "NL \<notin> set cur \<Longrightarrow> NL \<notin> set (dropCR cur)"
  by (auto simp: dropCR_def dest: in_set_butlastD)

lemma dropCR_id: "line = [] \<or> last line \<noteq> CR \<Longrightarrow> dropCR line = line"
  by (auto simp: dropCR_def)

lemma Scan_line:
  assumes "\<not> tooLong s" and "unread s = line @ NL # rest" and "NL \<notin> set line"
    and "length line < MaxScanTokenSize"
  shows "Scan s = (Some (dropCR line), s\<lparr>unread := rest\<rparr>)"
  using assms by (simp add: Scan_def takeWhile_line)

lemma scanLoop_line:
  assumes "\<not> tooLong s" and "unread s = line @ NL # rest" and "NL \<notin> set line"
    and "length line < MaxScanTokenSize"
  shows "scanLoop s = dropCR line # scanLoop (s\<lparr>unread := rest\<rparr>)"
  by (subst scanLoop.simps) (simp add: Scan_line [OF assms])

lemma scanLoop_long:
  assumes "\<not> tooLong s" and "unread s = line @ rest" and "NL \<notin> set line"
    and "MaxScanTokenSize \<le> length line"
  shows "scanLoop s = []"
proof -
  from assms(4) have "line \<noteq> []" by (auto simp: MaxScanTokenSize_def)
  with assms takeWhile_long [OF assms(3), of rest] show ?thesis
    by (subst scanLoop.simps) (simp add: Scan_def)
qed

lemma scanLoop_no_NL: "\<not> tooLong s \<Longrightarrow> l \<in> set (scanLoop s) \<Longrightarrow> NL \<notin> set l"
proof (induction s rule: scanLoop.induct)
  case (1 s)
  show ?case
  proof (cases "Scan s")
    case (Pair r s')
    show ?thesis
    proof (cases r)
      case None
      with Pair "1.prems"(2) show ?thesis by (subst (asm) scanLoop.simps) simp
    next
      case (Some token)
      with Pair "1.prems"(2) have "l = token \<or> l \<in> set (scanLoop s')"
        by (subst (asm) scanLoop.simps) simp
      moreover from Pair Some "1.prems"(1) have "NL \<notin> set token" and "\<not> tooLong s'"
        using dropCR_no_NL [of "takeWhile (\<lambda>c. c \<noteq> NL) (unread s)"]
        by (auto simp: Scan_def Let_def split: if_splits dest: set_takeWhileD)
      ultimately show ?thesis
        using "1.IH" [OF Pair [symmetric] Some] by auto
    qed
  qed
qed

lemma ScanLines_no_NL: "l \<in> set (ScanLines data) \<Longrightarrow> NL \<notin> set l"
  using scanLoop_no_NL [of "NewScanner data" l] by (simp add: ScanLines_def NewScanner_def)

lemma scanLoop_textLines:
  "\<forall>l\<in>set (textLines data). length l < MaxScanTokenSize \<Longrightarrow>
   scanLoop \<lparr>unread = data, tooLong = False\<rparr> = map dropCR (textLines data)"
proof (induction data rule: textLines.induct)
  case (1 data)
  show ?case
  proof (cases "data = []")
    case True
    then show ?thesis
      by (subst scanLoop.simps, subst textLines.simps) (simp add: Scan_def)
  next
    case False
    let ?line = "takeWhile (\<lambda>c. c \<noteq> NL) data"
    let ?rest = "drop (length ?line + 1) data"
    from False have tl: "textLines data = ?line # textLines ?rest"
      by (subst textLines.simps) (simp add: Let_def)
    with "1.prems" have short: "length ?line < MaxScanTokenSize"
      and rest: "\<forall>l\<in>set (textLines ?rest). length l < MaxScanTokenSize"
      by simp_all
    from "1.IH" [OF False refl rest]
    have "scanLoop \<lparr>unread = ?rest, tooLong = False\<rparr> = map dropCR (textLines ?rest)" .
    with False short tl show ?thesis
      by (subst scanLoop.simps) (simp add: Scan_def Let_def)
  qed
qed

lemma ScanLines_textLines:
  "\<forall>l\<in>set (textLines data). length l < MaxScanTokenSize \<Longrightarrow>
   ScanLines data = map dropCR (textLines data)"
  by (simp add: ScanLines_def NewScanner_def scanLoop_textLines)

lemma ScanLines_textLines_noCR:
  assumes "\<forall>l\<in>set (textLines data). length l < MaxScanTokenSize"
    and "\<forall>l\<in>set (textLines data). l = [] \<or> last l \<noteq> CR"
  shows "ScanLines data = textLines data"
proof -
  from assms(2) have "map dropCR (textLines data) = textLines data"
    by (simp add: map_idI dropCR_id)
  with ScanLines_textLines [OF assms(1)] show ?thesis by simp
qed

lemma textLines_joinLines: "\<forall>l\<in>set ls. NL \<notin> set l \<Longrightarrow> textLines (joinLines ls) = ls"
proof (induction ls)
  case Nil
  show ?case by (subst textLines.simps) simp
next
  case (Cons l ls)
  then have "NL \<notin> set l" and IH: "textLines (joinLines ls) = ls" by simp_all
  then show ?case
    by (subst textLines.simps) (simp add: takeWhile_line Let_def)
qed

lemma readTemplate_other:
  "\<not> HasSuffix templatePath ''.go'' \<Longrightarrow>
   readTemplate templatePath file = joinLines (ScanLines file)"
  by (simp add: readTemplate_def Let_def foldl_joinLines ScanLines_def)

lemma readTemplate_first_line:
  assumes "HasSuffix templatePath ''.go''" and "NL \<notin> set first"
    and "length first < MaxScanTokenSize"
  shows "readTemplate templatePath (first @ NL # rest) = joinLines (ScanLines rest)"
proof -
  have "Scan (NewScanner (first @ NL # rest))
          = (Some (dropCR first), (NewScanner (first @ NL # rest))\<lparr>unread := rest\<rparr>)"
    using assms(2,3) by (intro Scan_line) (simp_all add: NewScanner_def)
  with assms(1) show ?thesis
    by (simp add: readTemplate_def Let_def foldl_joinLines ScanLines_def NewScanner_def)
qed

lemma renderTemplate_parsesText:
  assumes "files fs templatePath = Some file"
    and "readTemplate templatePath file = text"
  shows "parsesText lib templatePath outputPath config fs text"
  using assms
  by (auto simp: parsesText_def renderTemplate_def mergeExisting_def split: option.splits)

lemma renderTemplate_template_text:
  assumes "readTemplate templatePath file = readTemplate templatePath file'"
    and "templatePath \<noteq> outputPath"
  shows "files (fst (renderTemplate lib templatePath outputPath config
                      (fs\<lparr>files := (files fs)(templatePath \<mapsto> file)\<rparr>))) outputPath
         = files (fst (renderTemplate lib templatePath outputPath config
                      (fs\<lparr>files := (files fs)(templatePath \<mapsto> file')\<rparr>))) outputPath
       \<and> snd (renderTemplate lib templatePath outputPath config
                      (fs\<lparr>files := (files fs)(templatePath \<mapsto> file)\<rparr>))
         = snd (renderTemplate lib templatePath outputPath config
                      (fs\<lparr>files := (files fs)(templatePath \<mapsto> file')\<rparr>))"
  using assms by (simp add: renderTemplate_def split: option.splits)

subsection \<open>The merge loop\<close>

lemma sectionLoop_lines:
  "\<exists>sl. sectionLoop beginRe endRe found result ls = result @ joinLines sl \<and> set sl \<subseteq> set ls"
proof (induction ls arbitrary: found result)
  case Nil
  show ?case by (rule exI [of _ "[]"]) simp
next
  case (Cons line ls)
  show ?case
  proof (cases "\<not> found \<and> \<not> beginRe line")
    case True
    from Cons.IH [of found result] obtain sl
      where "sectionLoop beginRe endRe found result ls = result @ joinLines sl" "set sl \<subseteq> set ls"
      by blast
    with True show ?thesis by (intro exI [of _ sl]) auto
  next
    case False
    let ?f = "\<not> found \<or> \<not> endRe line"
    from Cons.IH [of ?f "result @ line @ [NL]"] obtain sl
      where sl: "sectionLoop beginRe endRe ?f (result @ line @ [NL]) ls
               = (result @ line @ [NL]) @ joinLines sl" "set sl \<subseteq> set ls"
      by blast
    from False sl show ?thesis by (intro exI [of _ "line # sl"]) auto
  qed
qed

lemma getTemplateSection_lines:
  assumes "getTemplateSection mc out name = Some sec"
  shows "\<exists>sl. sec = joinLines sl \<and> (\<forall>l\<in>set sl. NL \<notin> set l)"
proof -
  from assms obtain b e where "sec = sectionLoop b e False [] (ScanLines out)"
    by (auto simp: getTemplateSection_def split: option.splits)
  moreover obtain sl where "sectionLoop b e False [] (ScanLines out) = [] @ joinLines sl"
    "set sl \<subseteq> set (ScanLines out)"
    using sectionLoop_lines [of b e False "[]" "ScanLines out"] by blast
  ultimately show ?thesis using ScanLines_no_NL by (intro exI [of _ sl]) auto
qed

lemma mergeLoop_unfold:
  "mergeLoop mc out cur nc (line # lines) =
     (if cur = [] then
        (if opensSection line then mergeLoop mc out (sectionName line) nc lines
         else mergeLoop mc out cur (nc @ line @ [NL]) lines)
      else
        (if closesSection cur line then
           (case getTemplateSection mc out cur of None \<Rightarrow> None
            | Some newSection \<Rightarrow> mergeLoop mc out [] (nc @ newSection) lines)
         else mergeLoop mc out cur nc lines))"
  by (auto simp: Let_def opensSection_def sectionName_def closesSection_def)

lemma mergeLoop_append:
  "mergeLoop mc out cur nc (pre @ post) =
     (case mergeLoop mc out cur nc pre of
        None \<Rightarrow> None
      | Some (nc', cur') \<Rightarrow> mergeLoop mc out cur' nc' post)"
proof (induction pre arbitrary: cur nc)
  case Nil
  show ?case by simp
next
  case (Cons line pre)
  show ?case
    unfolding append_Cons mergeLoop_unfold
    by (simp add: Cons.IH split: option.splits)
qed

lemma mergeLoop_unterminated:
  "cur \<noteq> [] \<Longrightarrow> \<forall>l\<in>set post. \<not> closesSection cur l \<Longrightarrow>
   mergeLoop mc out cur nc post = Some (nc, cur)"
proof (induction post)
  case Nil
  show ?case by simp
next
  case (Cons line post)
  then show ?case unfolding mergeLoop_unfold by simp
qed

lemma mergeLoop_returns:
  "compilesMarkers mc E \<Longrightarrow> set rest \<subseteq> set E \<Longrightarrow>
   \<exists>res cur'. mergeLoop mc out cur nc rest = Some (res, cur')"
proof (induction rest arbitrary: cur nc)
  case Nil
  show ?case by simp
next
  case (Cons line rest)
  from Cons.prems have sub: "set rest \<subseteq> set E" and mem: "line \<in> set E" by simp_all
  note IH = Cons.IH [OF Cons.prems(1) sub]
  show ?case
  proof (cases "cur \<noteq> [] \<and> closesSection cur line")
    case True
    then have "length (endRegex line) > 1" and "endRegex line ! 1 = cur"
      by (simp_all add: closesSection_def)
    with Cons.prems(1) mem obtain sec where "getTemplateSection mc out cur = Some sec"
      by (fastforce simp: compilesMarkers_def getTemplateSection_def split: option.splits)
    with True IH [of "[]" "nc @ sec"] show ?thesis
      unfolding mergeLoop_unfold by simp
  next
    case False
    with IH [of "sectionName line" nc] IH [of cur "nc @ line @ [NL]"] IH [of cur nc]
    show ?thesis
      unfolding mergeLoop_unfold by auto
  qed
qed

subsection \<open>Marker lines and the patterns of the merge\<close>

lemma beginMarkerName_line:
  assumes "beginMarkerName l = Some n"
  shows "l = beginLine n \<and> validName n"
proof (cases "take 17 l = ''//template:begin '' \<and> validName (drop 17 l)")
  case True
  then have "beginMarkerName l = Some (drop 17 l)" unfolding beginMarkerName_def by (rule if_P)
  with assms have n: "n = drop 17 l" by simp
  have "l = take 17 l @ drop 17 l" by (simp only: append_take_drop_id)
  with True n show ?thesis unfolding beginLine_def by (simp only:)
next
  case False
  then have "beginMarkerName l = None" unfolding beginMarkerName_def by (rule if_not_P)
  with assms show ?thesis by simp
qed

lemma endMarkerName_line:
  assumes "endMarkerName l = Some n"
  shows "l = endLine n \<and> validName n"
proof (cases "take 15 l = ''//template:end '' \<and> validName (drop 15 l)")
  case True
  then have "endMarkerName l = Some (drop 15 l)" unfolding endMarkerName_def by (rule if_P)
  with assms have n: "n = drop 15 l" by simp
  have "l = take 15 l @ drop 15 l" by (simp only: append_take_drop_id)
  with True n show ?thesis unfolding endLine_def by (simp only:)
next
  case False
  then have "endMarkerName l = None" unfolding endMarkerName_def by (rule if_not_P)
  with assms show ?thesis by simp
qed

lemma markerName_lines:
  "validName n \<Longrightarrow> beginMarkerName (beginLine n) = Some n"
  "validName n \<Longrightarrow> endMarkerName (endLine n) = Some n"
  "endMarkerName (beginLine n) = None"
  "beginMarkerName (endLine n) = None"
  by (simp_all add: beginMarkerName_def endMarkerName_def beginLine_def endLine_def)

lemma validName_parts: "validName n \<Longrightarrow> n \<noteq> [] \<and> NL \<notin> set n"
  by (auto simp: validName_def whitespace_def)

lemma beginRegex_beginLine: "NL \<notin> set n \<Longrightarrow> beginRegex (beginLine n) = [beginLine n, n]"
  by (simp add: beginRegex_def beginLine_def reSpace_def)

lemma endRegex_endLine: "NL \<notin> set n \<Longrightarrow> endRegex (endLine n) = [endLine n, n]"
  by (simp add: endRegex_def endLine_def reSpace_def)

lemma opensSection_marker:
  assumes "beginMarkerName l = Some n"
  shows "opensSection l \<and> sectionName l = n"
proof -
  from beginMarkerName_line [OF assms] have "l = beginLine n" and "NL \<notin> set n" and "n \<noteq> []"
    by (simp_all add: validName_parts)
  then show ?thesis by (simp add: opensSection_def sectionName_def beginRegex_beginLine)
qed

lemma closesSection_marker:
  assumes "endMarkerName l = Some n"
  shows "closesSection n l"
proof -
  from endMarkerName_line [OF assms] have "l = endLine n" and "NL \<notin> set n"
    by (simp_all add: validName_parts)
  then show ?thesis by (simp add: closesSection_def endRegex_endLine)
qed

lemma FindStringSubmatch_containsToken:
  "FindStringSubmatch tok line \<noteq> [] \<Longrightarrow> containsToken tok line"
proof (induction line)
  case Nil
  then show ?case by simp
next
  case (Cons c s)
  show ?case
  proof (cases "take (length tok) (c # s) = tok \<and> drop (length tok) (c # s) \<noteq> []
      \<and> reSpace (hd (drop (length tok) (c # s)))")
    case True
    then have "take (length tok) (c # s) = tok \<and> drop (length tok) (c # s) \<noteq> []
        \<and> whitespace (hd (drop (length tok) (c # s)))"
      by (auto simp: reSpace_def whitespace_def)
    then show ?thesis unfolding containsToken.simps by (rule disjI1)
  next
    case False
    with Cons.prems have "FindStringSubmatch tok s \<noteq> []"
      unfolding FindStringSubmatch.simps Let_def by (simp only: if_not_P HOL.simp_thms split: if_splits)
    then have "containsToken tok s" by (rule Cons.IH)
    then show ?thesis unfolding containsToken.simps by (rule disjI2)
  qed
qed

lemma wholeLine_opens:
  assumes "wholeLineMarkers E" and "l \<in> set E" and "opensSection l"
  shows "beginMarkerName l = Some (sectionName l)"
proof -
  from assms(3) have "beginRegex l \<noteq> []" by (auto simp: opensSection_def)
  then have "containsToken ''//template:begin'' l"
    unfolding beginRegex_def by (rule FindStringSubmatch_containsToken)
  with assms(1,2) obtain n where n: "beginMarkerName l = Some n"
    by (auto simp: wholeLineMarkers_def)
  with opensSection_marker [OF n] show ?thesis by simp
qed

lemma wholeLine_closes:
  assumes "wholeLineMarkers E" and "l \<in> set E" and "closesSection n l"
  shows "endMarkerName l = Some n"
proof -
  from assms(3) have "endRegex l \<noteq> []" by (auto simp: closesSection_def)
  then have "containsToken ''//template:end'' l"
    unfolding endRegex_def by (rule FindStringSubmatch_containsToken)
  with assms(1,2) obtain m where m: "endMarkerName l = Some m"
    by (auto simp: wholeLineMarkers_def)
  from endMarkerName_line [OF m] have "endRegex l = [l, m]"
    by (simp add: endRegex_endLine validName_parts)
  with assms(3) m show ?thesis by (simp add: closesSection_def)
qed

lemma wholeLine_Cons: "wholeLineMarkers (l # E) \<Longrightarrow> wholeLineMarkers E"
  by (simp add: wholeLineMarkers_def)

text \<open>On lines with whole-line markers the loop of the program is the two-state scan.\<close>

lemma mergeLoop_MergeEngine:
  assumes "wholeLineMarkers E"
    and "\<forall>l\<in>set E. \<forall>n sec. endMarkerName l = Some n \<longrightarrow>
           getTemplateSection mc out n = Some sec \<longrightarrow> sec = joinLines (X n)"
    and "\<forall>n. st = InSection n \<longrightarrow> n \<noteq> []"
    and "mergeLoop mc out (currentSectionName st) nc E = Some (res, cur')"
  shows "res = nc @ joinLines (MergeEngine X st E)"
  using assms
proof (induction E arbitrary: st nc)
  case Nil
  then show ?case by simp
next
  case (Cons line E)
  from Cons.prems(1) have wl: "wholeLineMarkers E" by (rule wholeLine_Cons)
  from Cons.prems(2) have secs: "\<forall>l\<in>set E. \<forall>n sec. endMarkerName l = Some n \<longrightarrow>
           getTemplateSection mc out n = Some sec \<longrightarrow> sec = joinLines (X n)"
    by simp
  note IH = Cons.IH [OF wl secs]
  note run = Cons.prems(4) [unfolded mergeLoop_unfold]
  show ?case
  proof (cases st)
    case Outside
    show ?thesis
    proof (cases "opensSection line")
      case True
      with wholeLine_opens [OF Cons.prems(1), of line]
      have marker: "beginMarkerName line = Some (sectionName line)" by simp
      from True have "sectionName line \<noteq> []" by (simp add: opensSection_def sectionName_def)
      moreover from run Outside True
      have "mergeLoop mc out (currentSectionName (InSection (sectionName line))) nc E
              = Some (res, cur')"
        by simp
      ultimately have "res = nc @ joinLines (MergeEngine X (InSection (sectionName line)) E)"
        by (intro IH) simp_all
      with Outside marker show ?thesis by simp
    next
      case False
      with opensSection_marker [of line] have marker: "beginMarkerName line = None"
        by (cases "beginMarkerName line") auto
      from run Outside False
      have "mergeLoop mc out (currentSectionName Outside) (nc @ line @ [NL]) E
              = Some (res, cur')"
        by simp
      then have "res = (nc @ line @ [NL]) @ joinLines (MergeEngine X Outside E)"
        by (intro IH) simp_all
      with Outside marker show ?thesis by simp
    qed
  next
    case (InSection n)
    with Cons.prems(3) have n: "n \<noteq> []" by simp
    show ?thesis
    proof (cases "closesSection n line")
      case True
      with wholeLine_closes [OF Cons.prems(1), of line n]
      have marker: "endMarkerName line = Some n" by simp
      from run InSection n True obtain sec where sec: "getTemplateSection mc out n = Some sec"
        and "mergeLoop mc out (currentSectionName Outside) (nc @ sec) E = Some (res, cur')"
        by (auto split: option.splits)
      then have "res = (nc @ sec) @ joinLines (MergeEngine X Outside E)"
        by (intro IH) simp_all
      moreover from Cons.prems(2) marker sec have "sec = joinLines (X n)" by simp
      ultimately show ?thesis using InSection marker by simp
    next
      case False
      with closesSection_marker [of line n] have marker: "endMarkerName line \<noteq> Some n"
        by auto
      from run InSection n False
      have "mergeLoop mc out (currentSectionName (InSection n)) nc E = Some (res, cur')"
        by simp
      then have "res = nc @ joinLines (MergeEngine X (InSection n) E)"
        using n by (intro IH) simp_all
      with InSection marker show ?thesis by simp
    qed
  qed
qed

lemma mergeLoop_returns_sections:
  assumes "\<forall>l\<in>set E. \<forall>n. n \<noteq> [] \<and> closesSection n l \<longrightarrow> getTemplateSection mc out n \<noteq> None"
  shows "\<exists>res cur'. mergeLoop mc out cur nc E = Some (res, cur')"
  using assms
proof (induction E arbitrary: cur nc)
  case Nil
  show ?case by simp
next
  case (Cons line E)
  then have IH: "\<And>cur nc. \<exists>res cur'. mergeLoop mc out cur nc E = Some (res, cur')"
    and here: "\<And>n. n \<noteq> [] \<Longrightarrow> closesSection n line \<Longrightarrow> getTemplateSection mc out n \<noteq> None"
    by simp_all
  show ?case
  proof (cases "cur \<noteq> [] \<and> closesSection cur line")
    case True
    with here [of cur] obtain sec where "getTemplateSection mc out cur = Some sec" by auto
    with True IH [of "[]" "nc @ sec"] show ?thesis
      unfolding mergeLoop_unfold by simp
  next
    case False
    with IH [of "sectionName line" nc] IH [of cur "nc @ line @ [NL]"] IH [of cur nc]
    show ?thesis
      unfolding mergeLoop_unfold by auto
  qed
qed

lemma textLines_no_NL: "l \<in> set (textLines data) \<Longrightarrow> NL \<notin> set l"
proof (induction data rule: textLines.induct)
  case (1 data)
  show ?case
  proof (cases "data = []")
    case True
    with "1.prems" show ?thesis by (subst (asm) textLines.simps) simp
  next
    case False
    let ?line = "takeWhile (\<lambda>c. c \<noteq> NL) data"
    from False "1.prems" have "l = ?line \<or> l \<in> set (textLines (drop (length ?line + 1) data))"
      by (subst (asm) textLines.simps) (simp add: Let_def)
    with "1.IH" [OF False refl] show ?thesis by (auto dest: set_takeWhileD)
  qed
qed

lemma MergeEngine_lines:
  "l \<in> set (MergeEngine X st E) \<Longrightarrow>
   (l \<in> set E \<and> beginMarkerName l = None)
   \<or> (\<exists>e\<in>set E. \<exists>n. endMarkerName e = Some n \<and> l \<in> set (X n))"
proof (induction X st E rule: MergeEngine.induct)
  case (1 X st)
  then show ?case by simp
next
  case (2 X line E)
  then show ?case by (cases "beginMarkerName line") auto
next
  case (3 X name line E)
  then show ?case by (cases "endMarkerName line = Some name") auto
qed

subsection \<open>Evaluation of the concrete runs\<close>

lemma plainLines_ScanLines: "plainLines text \<Longrightarrow> ScanLines text = textLines text"
  by (rule ScanLines_textLines_noCR) (simp_all add: plainLines_def)

lemma example_paths:
  "HasSuffix ''./gen/templates/model.go'' ''.go''"
  "\<not> HasSuffix ''./gen/templates/import.sh'' ''.go''"
  by (simp_all add: HasSuffix_def)

lemma textLines_examples:
  "textLines exampleRendered = [''package provider'', ''//template:begin model'', ''new'',
       ''//template:end model'', ''//template:begin extra'', ''added'', ''//template:end extra'']"
  "textLines exampleExisting = [''// kept'', ''//template:begin model'', ''stale'',
       ''//template:end model'', ''// also kept'']"
  "textLines exampleUnterminated
     = [''// kept'', ''//template:begin model'', ''stale'', ''// lost'']"
  "textLines exampleInlineMarker = [''a'', ''// see //template:begin model'', ''b'']"
  "textLines exampleOpenRendered = [''//template:begin m'', ''1'', ''//template:begin n'', ''2'',
       ''//template:end n'']"
  "textLines exampleExistingM
     = [''keep'', ''//template:begin m'', ''old'', ''//template:end m'', ''tail'']"
  "textLines exampleCarriageReturn = [''a'' @ [CR], ''b'']"
  "textLines exampleWildcard = [''//template:begin .*'', ''old'', ''//template:end .*'']"
  "textLines exampleInlineSection
     = [''x //template:begin model'', ''old'', ''y //template:end model'']"
  "textLines exampleParenthesis
     = [''a'', ''//template:begin ('', ''old'', ''//template:end ('', ''b'']"
  "textLines exampleLongTemplate = [''a'', replicate MaxScanTokenSize (CHR ''x''), ''b'']"
  unfolding exampleRendered_def exampleExisting_def exampleUnterminated_def
    exampleInlineMarker_def exampleOpenRendered_def exampleExistingM_def
    exampleCarriageReturn_def exampleLongTemplate_def exampleWildcard_def
    exampleInlineSection_def exampleParenthesis_def
  by (rule textLines_joinLines, simp)+

lemma plainLines_examples:
  "plainLines exampleRendered" "plainLines exampleExisting" "plainLines exampleUnterminated"
  "plainLines exampleInlineMarker" "plainLines exampleOpenRendered"
  "plainLines exampleExistingM" "plainLines exampleWildcard" "plainLines exampleInlineSection"
  "plainLines exampleParenthesis"
  by (simp_all add: plainLines_def textLines_examples MaxScanTokenSize_def)

lemma ScanLines_examples:
  "ScanLines exampleRendered = [''package provider'', ''//template:begin model'', ''new'',
       ''//template:end model'', ''//template:begin extra'', ''added'', ''//template:end extra'']"
  "ScanLines exampleExisting = [''// kept'', ''//template:begin model'', ''stale'',
       ''//template:end model'', ''// also kept'']"
  "ScanLines exampleUnterminated
     = [''// kept'', ''//template:begin model'', ''stale'', ''// lost'']"
  "ScanLines exampleInlineMarker = [''a'', ''// see //template:begin model'', ''b'']"
  "ScanLines exampleOpenRendered = [''//template:begin m'', ''1'', ''//template:begin n'', ''2'',
       ''//template:end n'']"
  "ScanLines exampleExistingM
     = [''keep'', ''//template:begin m'', ''old'', ''//template:end m'', ''tail'']"
  "ScanLines exampleWildcard = [''//template:begin .*'', ''old'', ''//template:end .*'']"
  "ScanLines exampleInlineSection
     = [''x //template:begin model'', ''old'', ''y //template:end model'']"
  "ScanLines exampleParenthesis
     = [''a'', ''//template:begin ('', ''old'', ''//template:end ('', ''b'']"
  by (simp_all only: plainLines_ScanLines plainLines_examples textLines_examples)

lemma ScanLines_exampleLongTemplate: "ScanLines exampleLongTemplate = [''a'']"
proof -
  have "scanLoop (NewScanner exampleLongTemplate)
          = dropCR ''a'' # scanLoop ((NewScanner exampleLongTemplate)
              \<lparr>unread := replicate MaxScanTokenSize (CHR ''x'') @ NL # ''b'' @ [NL]\<rparr>)"
    by (rule scanLoop_line)
      (simp_all add: NewScanner_def exampleLongTemplate_def MaxScanTokenSize_def)
  moreover have "scanLoop ((NewScanner exampleLongTemplate)
              \<lparr>unread := replicate MaxScanTokenSize (CHR ''x'') @ NL # ''b'' @ [NL]\<rparr>) = []"
    by (rule scanLoop_long [of _ "replicate MaxScanTokenSize (CHR ''x'')" "NL # ''b'' @ [NL]"])
      (simp_all add: NewScanner_def)
  ultimately show ?thesis by (simp add: ScanLines_def dropCR_def)
qed

lemma ScanLines_exampleCarriageReturn: "ScanLines exampleCarriageReturn = [''a'', ''b'']"
proof -
  have "scanLoop (NewScanner exampleCarriageReturn)
          = dropCR (''a'' @ [CR]) # scanLoop ((NewScanner exampleCarriageReturn)
              \<lparr>unread := ''b'' @ [NL]\<rparr>)"
    by (rule scanLoop_line)
      (simp_all add: NewScanner_def exampleCarriageReturn_def MaxScanTokenSize_def)
  moreover have "scanLoop ((NewScanner exampleCarriageReturn)\<lparr>unread := ''b'' @ [NL]\<rparr>)
          = dropCR ''b'' # scanLoop ((NewScanner exampleCarriageReturn)\<lparr>unread := []\<rparr>)"
    using scanLoop_line [of "(NewScanner exampleCarriageReturn)\<lparr>unread := ''b'' @ [NL]\<rparr>"
        "''b''" "[]"]
    by (simp add: NewScanner_def MaxScanTokenSize_def)
  moreover have "scanLoop ((NewScanner exampleCarriageReturn)\<lparr>unread := []\<rparr>) = []"
    by (subst scanLoop.simps) (simp add: Scan_def)
  ultimately show ?thesis by (simp add: ScanLines_def dropCR_def)
qed

lemma renderTemplate_exampleLibrary:
  assumes "readTemplate templatePath template = text" and "templatePath \<noteq> outputPath"
  shows "renderTemplate exampleLibrary templatePath outputPath config
           (exampleTemplateFs templatePath template)
         = ((exampleTemplateFs templatePath template)
              \<lparr>files := (files (exampleTemplateFs templatePath template))(outputPath \<mapsto> text)\<rparr>,
            None)"
  using assms
  by (simp add: renderTemplate_def exampleLibrary_def exampleTemplateFs_def mergeExisting_def)

lemma markers:
  "beginRegex ''// kept'' = []" "endRegex ''// kept'' = []"
  "beginRegex ''//template:begin model'' = [''//template:begin model'', ''model'']"
  "endRegex ''//template:begin model'' = []"
  "beginRegex ''stale'' = []" "endRegex ''stale'' = []"
  "beginRegex ''//template:end model'' = []"
  "endRegex ''//template:end model'' = [''//template:end model'', ''model'']"
  "beginRegex ''// also kept'' = []" "endRegex ''// also kept'' = []"
  "beginRegex ''// lost'' = []" "endRegex ''// lost'' = []"
  by (simp_all add: beginRegex_def endRegex_def reSpace_def)

lemma compile_model:
  "literalCompile (beginPattern ''model'') = Some (endsWithMarker ''//template:begin'' ''model'')"
  "literalCompile (endPattern ''model'') = Some (endsWithMarker ''//template:end'' ''model'')"
  by (simp_all add: literalCompile_def beginPattern_def endPattern_def wordChar_def)

lemma section_model:
  "getTemplateSection literalCompile exampleRendered ''model''
     = Some (joinLines [''//template:begin model'', ''new'', ''//template:end model''])"
  by (simp add: getTemplateSection_def compile_model ScanLines_examples
      endsWithMarker_def reSpace_def Let_def)

lemma merge_example:
  "mergeLoop literalCompile exampleRendered [] [] (ScanLines exampleExisting)
     = Some (joinLines [''// kept'', ''//template:begin model'', ''new'', ''//template:end model'',
                ''// also kept''], [])"
  by (simp add: ScanLines_examples markers section_model)

lemma merge_example_unterminated:
  "mergeLoop literalCompile exampleRendered [] [] (ScanLines exampleUnterminated)
     = Some (joinLines [''// kept''], ''model'')"
  by (simp add: ScanLines_examples markers)

lemma readTemplate_example:
  "readTemplate ''./gen/templates/model.go'' exampleTemplate = exampleRendered"
proof -
  have "readTemplate ''./gen/templates/model.go'' (''//go:build ignore'' @ NL # exampleRendered)
          = joinLines (ScanLines exampleRendered)"
    by (rule readTemplate_first_line) (simp_all add: HasSuffix_def MaxScanTokenSize_def)
  also have "\<dots> = exampleRendered"
    unfolding ScanLines_examples by (simp add: exampleRendered_def)
  finally show ?thesis by (simp add: exampleTemplate_def)
qed

subsection \<open>The text that is parsed\<close>

lemma readTemplate_long_first_line:
  assumes "HasSuffix templatePath ''.go''" and "NL \<notin> set first"
    and "MaxScanTokenSize \<le> length first"
  shows "readTemplate templatePath (first @ NL # rest) = dropCR (take MaxScanTokenSize first) @ [NL]"
proof -
  let ?buf = "take MaxScanTokenSize first"
  from assms(3) have ne: "?buf \<noteq> []" by (auto simp: MaxScanTokenSize_def)
  have "Scan (NewScanner (first @ NL # rest)) = (None, \<lparr>unread = ?buf, tooLong = True\<rparr>)"
    using assms(2,3) by (simp add: Scan_def NewScanner_def takeWhile_line)
  moreover have "scanLoop \<lparr>unread = ?buf, tooLong = True\<rparr> = [dropCR ?buf]"
    using ne by (subst scanLoop.simps, subst scanLoop.simps) (simp add: Scan_def)
  ultimately show ?thesis
    using assms(1) by (simp add: readTemplate_def)
qed

lemma textLines_Cons:
  "NL \<notin> set line \<Longrightarrow> textLines (line @ NL # rest) = line # textLines rest"
  by (subst textLines.simps) (simp add: takeWhile_line Let_def)

lemma joinLines_textLines:
  "data = [] \<or> last data = NL \<Longrightarrow> joinLines (textLines data) = data"
proof (induction data rule: length_induct)
  case (1 data)
  show ?case
  proof (cases "data = []")
    case True
    then show ?thesis by (subst textLines.simps) simp
  next
    case False
    with "1.prems" have "NL \<in> set data" using last_in_set [of data] by auto
    then obtain line tail where d: "data = line @ NL # tail" and nl: "NL \<notin> set line"
      by (auto dest: split_list_first)
    from d "1.prems" have t: "tail = [] \<or> last tail = NL" by (cases "tail = []") simp_all
    from d have "length tail < length data" by simp
    with "1.IH" t have "joinLines (textLines tail) = tail" by blast
    then show ?thesis unfolding d by (simp add: textLines_Cons [OF nl])
  qed
qed

text \<open>
  Claim C9 does not hold as stated. A template \<^verbatim>\<open>import.sh\<close> with the lines \<^verbatim>\<open>a\<close>, a line of
  65536 letters \<^verbatim>\<open>x\<close>, and \<^verbatim>\<open>b\<close> is parsed (and, having no action, written) as the line \<^verbatim>\<open>a\<close>
  alone: the scanner stops at the long line and the program does not ask for its error.
  A template \<^verbatim>\<open>import.sh\<close> with the lines \<^verbatim>\<open>a\<close> followed by a carriage return, and \<^verbatim>\<open>b\<close>, is
  parsed without the carriage return. For the template \<^verbatim>\<open>model.go\<close> whose first line is 65536
  letters \<^verbatim>\<open>x\<close> that first line is what is parsed and written, so with 65536 letters \<^verbatim>\<open>y\<close>
  instead the output differs.
\<close>

theorem template_text_counterexample:
  "\<not> HasSuffix ''./gen/templates/import.sh'' ''.go''
   \<and> textLines exampleLongTemplate = [''a'', replicate MaxScanTokenSize (CHR ''x''), ''b'']
   \<and> renderTemplate exampleLibrary ''./gen/templates/import.sh''
        ''./examples/resources/fmc_host/import.sh'' (ProviderData [])
        (exampleTemplateFs ''./gen/templates/import.sh'' exampleLongTemplate)
      = ((exampleTemplateFs ''./gen/templates/import.sh'' exampleLongTemplate)
           \<lparr>files := (files (exampleTemplateFs ''./gen/templates/import.sh'' exampleLongTemplate))
              (''./examples/resources/fmc_host/import.sh'' \<mapsto> ''a'' @ [NL])\<rparr>, None)
   \<and> exampleCarriageReturn = ''a'' @ [CR, NL] @ ''b'' @ [NL]
   \<and> renderTemplate exampleLibrary ''./gen/templates/import.sh''
        ''./examples/resources/fmc_host/import.sh'' (ProviderData [])
        (exampleTemplateFs ''./gen/templates/import.sh'' exampleCarriageReturn)
      = ((exampleTemplateFs ''./gen/templates/import.sh'' exampleCarriageReturn)
           \<lparr>files := (files (exampleTemplateFs ''./gen/templates/import.sh'' exampleCarriageReturn))
              (''./examples/resources/fmc_host/import.sh'' \<mapsto> ''a'' @ [NL] @ ''b'' @ [NL])\<rparr>,
         None)
   \<and> HasSuffix ''./gen/templates/model.go'' ''.go''
   \<and> files (fst (renderTemplate exampleLibrary ''./gen/templates/model.go''
        ''./internal/provider/model_fmc_host.go'' (ProviderData [])
        (exampleTemplateFs ''./gen/templates/model.go''
           (replicate MaxScanTokenSize (CHR ''x'') @ NL # ''b'' @ [NL]))))
        ''./internal/provider/model_fmc_host.go''
      = Some (replicate MaxScanTokenSize (CHR ''x'') @ [NL])
   \<and> files (fst (renderTemplate exampleLibrary ''./gen/templates/model.go''
        ''./internal/provider/model_fmc_host.go'' (ProviderData [])
        (exampleTemplateFs ''./gen/templates/model.go''
           (replicate MaxScanTokenSize (CHR ''y'') @ NL # ''b'' @ [NL]))))
        ''./internal/provider/model_fmc_host.go''
      = Some (replicate MaxScanTokenSize (CHR ''y'') @ [NL])"
proof -
  have lines: "textLines exampleLongTemplate
                 = [''a'', replicate MaxScanTokenSize (CHR ''x''), ''b'']"
    unfolding exampleLongTemplate_def by (rule textLines_joinLines) simp
  have long: "readTemplate ''./gen/templates/import.sh'' exampleLongTemplate = ''a'' @ [NL]"
    by (simp add: readTemplate_other example_paths ScanLines_exampleLongTemplate)
  have cr: "readTemplate ''./gen/templates/import.sh'' exampleCarriageReturn
              = ''a'' @ [NL] @ ''b'' @ [NL]"
    by (simp add: readTemplate_other example_paths ScanLines_exampleCarriageReturn)
  have first: "readTemplate ''./gen/templates/model.go''
                 (replicate MaxScanTokenSize c @ NL # ''b'' @ [NL])
               = replicate MaxScanTokenSize c @ [NL]"
    if "c = CHR ''x'' \<or> c = CHR ''y''" for c
  proof -
    have "dropCR (replicate MaxScanTokenSize c) = replicate MaxScanTokenSize c"
      using that by (intro dropCR_id) (auto simp: MaxScanTokenSize_def)
    with readTemplate_long_first_line
      [of "''./gen/templates/model.go''" "replicate MaxScanTokenSize c" "''b'' @ [NL]"] that
    show ?thesis by (auto simp: example_paths)
  qed
  have ne: "''./gen/templates/import.sh'' \<noteq> ''./examples/resources/fmc_host/import.sh''"
    "''./gen/templates/model.go'' \<noteq> ''./internal/provider/model_fmc_host.go''"
    by simp_all
  have crlf: "exampleCarriageReturn = ''a'' @ [CR, NL] @ ''b'' @ [NL]"
    by (simp add: exampleCarriageReturn_def)
  have written: "files (fst (renderTemplate exampleLibrary ''./gen/templates/model.go''
        ''./internal/provider/model_fmc_host.go'' (ProviderData [])
        (exampleTemplateFs ''./gen/templates/model.go''
           (replicate MaxScanTokenSize c @ NL # ''b'' @ [NL]))))
        ''./internal/provider/model_fmc_host.go''
      = Some (replicate MaxScanTokenSize c @ [NL])"
    if "c = CHR ''x'' \<or> c = CHR ''y''" for c
    by (subst renderTemplate_exampleLibrary [OF first [OF that] ne(2)]) simp
  show ?thesis
    using example_paths lines crlf
      renderTemplate_exampleLibrary [OF long ne(1), of "ProviderData []"]
      renderTemplate_exampleLibrary [OF cr ne(1), of "ProviderData []"]
      written [of "CHR ''x''"] written [of "CHR ''y''"]
    by (intro conjI) (simp_all only: simp_thms)
qed

text \<open>
  Claim C9, amended. Rendering a template with the suffix \<^verbatim>\<open>.go\<close> whose first line is
  shorter than the scanner's buffer hands to the parser what the scanner reads from the
  text after that line, so two such template files that differ only in their first line
  give the same content of the output file and the same error. Rendering any other template
  whose lines are shorter than the buffer and do not end with a carriage return hands to
  the parser all lines of the file, each ended by a line feed: the file itself when it is
  empty or ends with a line feed.
\<close>

theorem template_text_parsed:
  assumes "files fs templatePath = Some file"
  shows "(HasSuffix templatePath ''.go'' \<longrightarrow>
           (\<forall>first rest. file = first @ NL # rest \<and> NL \<notin> set first
                \<and> length first < MaxScanTokenSize \<longrightarrow>
              parsesText lib templatePath outputPath config fs (joinLines (ScanLines rest))))
     \<and> (\<forall>first first' rest. HasSuffix templatePath ''.go'' \<and> templatePath \<noteq> outputPath
            \<and> NL \<notin> set first \<and> length first < MaxScanTokenSize
            \<and> NL \<notin> set first' \<and> length first' < MaxScanTokenSize \<longrightarrow>
          files (fst (renderTemplate lib templatePath outputPath config
                   (fs\<lparr>files := (files fs)(templatePath \<mapsto> first @ NL # rest)\<rparr>))) outputPath
            = files (fst (renderTemplate lib templatePath outputPath config
                   (fs\<lparr>files := (files fs)(templatePath \<mapsto> first' @ NL # rest)\<rparr>))) outputPath
          \<and> snd (renderTemplate lib templatePath outputPath config
                   (fs\<lparr>files := (files fs)(templatePath \<mapsto> first @ NL # rest)\<rparr>))
            = snd (renderTemplate lib templatePath outputPath config
                   (fs\<lparr>files := (files fs)(templatePath \<mapsto> first' @ NL # rest)\<rparr>)))
     \<and> (\<not> HasSuffix templatePath ''.go'' \<and> plainLines file \<longrightarrow>
          parsesText lib templatePath outputPath config fs (joinLines (textLines file)))
     \<and> (\<not> HasSuffix templatePath ''.go'' \<and> plainLines file \<and> (file = [] \<or> last file = NL) \<longrightarrow>
          parsesText lib templatePath outputPath config fs file)"
proof (intro conjI allI impI)
  fix first rest
  assume "HasSuffix templatePath ''.go''"
    and "file = first @ NL # rest \<and> NL \<notin> set first \<and> length first < MaxScanTokenSize"
  then have "readTemplate templatePath file = joinLines (ScanLines rest)"
    by (simp add: readTemplate_first_line)
  with assms show "parsesText lib templatePath outputPath config fs (joinLines (ScanLines rest))"
    by (rule renderTemplate_parsesText)
next
  fix first first' rest
  assume a: "HasSuffix templatePath ''.go'' \<and> templatePath \<noteq> outputPath
            \<and> NL \<notin> set first \<and> length first < MaxScanTokenSize
            \<and> NL \<notin> set first' \<and> length first' < MaxScanTokenSize"
  then have same: "readTemplate templatePath (first @ NL # rest)
            = readTemplate templatePath (first' @ NL # rest)"
    by (simp add: readTemplate_first_line)
  from a have ne: "templatePath \<noteq> outputPath" by simp
  from renderTemplate_template_text [OF same ne]
  show "files (fst (renderTemplate lib templatePath outputPath config
                   (fs\<lparr>files := (files fs)(templatePath \<mapsto> first @ NL # rest)\<rparr>))) outputPath
            = files (fst (renderTemplate lib templatePath outputPath config
                   (fs\<lparr>files := (files fs)(templatePath \<mapsto> first' @ NL # rest)\<rparr>))) outputPath"
    and "snd (renderTemplate lib templatePath outputPath config
                   (fs\<lparr>files := (files fs)(templatePath \<mapsto> first @ NL # rest)\<rparr>))
            = snd (renderTemplate lib templatePath outputPath config
                   (fs\<lparr>files := (files fs)(templatePath \<mapsto> first' @ NL # rest)\<rparr>))"
    by blast+
next
  assume "\<not> HasSuffix templatePath ''.go'' \<and> plainLines file"
  then have "readTemplate templatePath file = joinLines (textLines file)"
    by (simp add: readTemplate_other plainLines_ScanLines)
  with assms show "parsesText lib templatePath outputPath config fs (joinLines (textLines file))"
    by (rule renderTemplate_parsesText)
next
  assume "\<not> HasSuffix templatePath ''.go'' \<and> plainLines file \<and> (file = [] \<or> last file = NL)"
  then have "readTemplate templatePath file = file"
    by (simp add: readTemplate_other plainLines_ScanLines joinLines_textLines)
  with assms show "parsesText lib templatePath outputPath config fs file"
    by (rule renderTemplate_parsesText)
qed

theorem template_text_parsed_witness:
  "files (exampleTemplateFs ''./gen/templates/model.go'' exampleTemplate)
       ''./gen/templates/model.go'' = Some (''//go:build ignore'' @ NL # exampleRendered)
   \<and> HasSuffix ''./gen/templates/model.go'' ''.go''
   \<and> length ''//go:build ignore'' < MaxScanTokenSize
   \<and> joinLines (ScanLines exampleRendered) = exampleRendered
   \<and> renderTemplate exampleLibrary ''./gen/templates/model.go''
        ''./internal/provider/model_fmc_host.go'' (ProviderData [])
        (exampleTemplateFs ''./gen/templates/model.go'' exampleTemplate)
      = ((exampleTemplateFs ''./gen/templates/model.go'' exampleTemplate)
           \<lparr>files := (files (exampleTemplateFs ''./gen/templates/model.go'' exampleTemplate))
              (''./internal/provider/model_fmc_host.go'' \<mapsto> exampleRendered)\<rparr>, None)
   \<and> files (exampleTemplateFs ''./gen/templates/import.sh'' exampleRendered)
       ''./gen/templates/import.sh'' = Some exampleRendered
   \<and> \<not> HasSuffix ''./gen/templates/import.sh'' ''.go''
   \<and> plainLines exampleRendered \<and> last exampleRendered = NL
   \<and> renderTemplate exampleLibrary ''./gen/templates/import.sh''
        ''./examples/resources/fmc_host/import.sh'' (ProviderData [])
        (exampleTemplateFs ''./gen/templates/import.sh'' exampleRendered)
      = ((exampleTemplateFs ''./gen/templates/import.sh'' exampleRendered)
           \<lparr>files := (files (exampleTemplateFs ''./gen/templates/import.sh'' exampleRendered))
              (''./examples/resources/fmc_host/import.sh'' \<mapsto> exampleRendered)\<rparr>, None)"
proof -
  let ?go = "exampleTemplateFs ''./gen/templates/model.go'' exampleTemplate"
  let ?sh = "exampleTemplateFs ''./gen/templates/import.sh'' exampleRendered"
  have go: "files ?go ''./gen/templates/model.go''
              = Some (''//go:build ignore'' @ NL # exampleRendered)"
    by (simp add: exampleTemplateFs_def exampleTemplate_def)
  have sh: "files ?sh ''./gen/templates/import.sh'' = Some exampleRendered"
    by (simp add: exampleTemplateFs_def)
  have short: "length ''//go:build ignore'' < MaxScanTokenSize"
    by (simp add: MaxScanTokenSize_def)
  have nl: "NL \<notin> set ''//go:build ignore''"
    by simp
  have lines: "joinLines (ScanLines exampleRendered) = exampleRendered"
    unfolding ScanLines_examples by (simp add: exampleRendered_def)
  have ends: "last exampleRendered = NL"
    by (simp add: exampleRendered_def)
  have free: "files ?go ''./internal/provider/model_fmc_host.go'' = None"
    "creatable ?go ''./internal/provider/model_fmc_host.go''"
    "files ?sh ''./examples/resources/fmc_host/import.sh'' = None"
    "creatable ?sh ''./examples/resources/fmc_host/import.sh''"
    by (simp_all add: exampleTemplateFs_def)
  from template_text_parsed [OF go, of exampleLibrary
      "''./internal/provider/model_fmc_host.go''" "ProviderData []"] example_paths(1) short nl
  have "parsesText exampleLibrary ''./gen/templates/model.go''
          ''./internal/provider/model_fmc_host.go'' (ProviderData []) ?go
          (joinLines (ScanLines exampleRendered))"
    by blast
  with free lines have 1: "renderTemplate exampleLibrary ''./gen/templates/model.go''
        ''./internal/provider/model_fmc_host.go'' (ProviderData []) ?go
      = (?go\<lparr>files := (files ?go)
              (''./internal/provider/model_fmc_host.go'' \<mapsto> exampleRendered)\<rparr>, None)"
    by (simp add: parsesText_def exampleLibrary_def)
  from template_text_parsed [OF sh, of exampleLibrary
      "''./examples/resources/fmc_host/import.sh''" "ProviderData []"]
    example_paths(2) plainLines_examples(1) ends
  have "parsesText exampleLibrary ''./gen/templates/import.sh''
          ''./examples/resources/fmc_host/import.sh'' (ProviderData []) ?sh exampleRendered"
    by blast
  with free have 2: "renderTemplate exampleLibrary ''./gen/templates/import.sh''
        ''./examples/resources/fmc_host/import.sh'' (ProviderData []) ?sh
      = (?sh\<lparr>files := (files ?sh)
              (''./examples/resources/fmc_host/import.sh'' \<mapsto> exampleRendered)\<rparr>, None)"
    by (simp add: parsesText_def exampleLibrary_def)
  from go sh short lines ends example_paths plainLines_examples(1) 1 2 show ?thesis
    by (intro conjI)
qed
subsection \<open>Lines outside marked sections\<close>

lemma first_closing:
  assumes "(i::nat) < j" and "Q j"
  shows "\<exists>j'. i < j' \<and> j' \<le> j \<and> Q j' \<and> (\<forall>m<j'. i < m \<longrightarrow> \<not> Q m)"
proof -
  let ?P = "\<lambda>k. i < k \<and> Q k"
  let ?j = "LEAST k. ?P k"
  from assms have j: "?P j" by simp
  from LeastI [of ?P j, OF j] have "?P ?j" .
  moreover from Least_le [of ?P j, OF j] have "?j \<le> j" .
  moreover have "\<not> ?P m" if "m < ?j" for m using not_less_Least [of m ?P, OF that] .
  ultimately show ?thesis by (intro exI [of _ ?j]) blast
qed

lemma not_outside_open:
  assumes "sectionsTerminated E" and "p < length E" and "i \<le> p"
    and "beginMarkerName (E ! i) = Some cur"
    and "\<forall>m<p. i < m \<longrightarrow> endMarkerName (E ! m) \<noteq> Some cur"
  shows "\<not> outsideSections E p"
proof -
  from assms have "i < length E" by simp
  with assms(1) assms(4)
  obtain j where j: "j < length E" "i < j" "endMarkerName (E ! j) = Some cur"
    unfolding sectionsTerminated_def by fastforce
  from first_closing [of i j "\<lambda>k. endMarkerName (E ! k) = Some cur", OF j(2) j(3)]
  obtain j' where j': "i < j'" "j' \<le> j" "endMarkerName (E ! j') = Some cur"
    "\<forall>m<j'. i < m \<longrightarrow> endMarkerName (E ! m) \<noteq> Some cur"
    by blast
  have "p \<le> j'"
  proof (rule ccontr)
    assume "\<not> p \<le> j'"
    then have "j' < p" by simp
    with assms(5) j'(1) j'(3) show False by blast
  qed
  moreover from j j' assms(4) have "markedSection E i j'" by (simp add: markedSection_def)
  moreover from j j' have "j' < length E" by simp
  ultimately show ?thesis using assms(3) j'(1) unfolding outsideSections_def by blast
qed

lemma MergeEngine_keeps_outside:
  assumes trm: "sectionsTerminated E"
  shows "p \<le> length E \<Longrightarrow> rest = drop p E \<Longrightarrow>
     \<forall>cur. st = InSection cur \<longrightarrow>
       (\<exists>i<p. beginMarkerName (E ! i) = Some cur
              \<and> (\<forall>m<p. i < m \<longrightarrow> endMarkerName (E ! m) \<noteq> Some cur)) \<Longrightarrow>
     subseq (map (\<lambda>k. E ! k) (filter (outsideSections E) [p..<length E]))
       (MergeEngine X st rest)"
proof (induction rest arbitrary: p st)
  case Nil
  then have "p = length E" by simp
  then show ?case by simp
next
  case (Cons line rest)
  from Cons.prems(2) have p: "p < length E"
    by (metis drop_all list.distinct(1) not_le_imp_less)
  with Cons.prems(2) have line: "line = E ! p" and rest: "rest = drop (Suc p) E"
    by (simp_all add: Cons_nth_drop_Suc [symmetric])
  from p have upt: "[p..<length E] = p # [Suc p..<length E]"
    by (rule upt_conv_Cons)
  from p have Sp: "Suc p \<le> length E" by simp
  let ?out = "\<lambda>q. map (\<lambda>k. E ! k) (filter (outsideSections E) [q..<length E])"
  show ?case
  proof (cases st)
    case Outside
    show ?thesis
    proof (cases "beginMarkerName line")
      case None
      have "subseq (?out (Suc p)) (MergeEngine X Outside rest)"
        by (rule Cons.IH [OF Sp rest]) simp
      then have "subseq (?out p) (line # MergeEngine X Outside rest)"
        using line by (auto simp: upt intro: list_emb_Cons)
      with Outside None show ?thesis by simp
    next
      case (Some n)
      have inv: "\<forall>cur. InSection n = InSection cur \<longrightarrow>
          (\<exists>i<Suc p. beginMarkerName (E ! i) = Some cur
             \<and> (\<forall>m<Suc p. i < m \<longrightarrow> endMarkerName (E ! m) \<noteq> Some cur))"
        using Some line by (intro allI impI exI [of _ p]) auto
      have "subseq (?out (Suc p)) (MergeEngine X (InSection n) rest)"
        by (rule Cons.IH [OF Sp rest inv])
      moreover from Some line have "\<not> outsideSections E p"
        by (intro not_outside_open [OF trm p, of p n]) simp_all
      then have "?out p = ?out (Suc p)" by (simp add: upt)
      ultimately show ?thesis using Outside Some by simp
    qed
  next
    case (InSection cur)
    with Cons.prems(3) obtain i where i: "i < p" "beginMarkerName (E ! i) = Some cur"
      "\<forall>m<p. i < m \<longrightarrow> endMarkerName (E ! m) \<noteq> Some cur"
      by blast
    from i have "\<not> outsideSections E p"
      by (intro not_outside_open [OF trm p, of i cur]) simp_all
    then have outp: "?out p = ?out (Suc p)" by (simp add: upt)
    show ?thesis
    proof (cases "endMarkerName line = Some cur")
      case True
      have "subseq (?out (Suc p)) (MergeEngine X Outside rest)"
        by (rule Cons.IH [OF Sp rest]) simp
      then have "subseq (?out p) (X cur @ MergeEngine X Outside rest)"
        using outp by (simp add: list_emb_append2)
      with InSection True show ?thesis by simp
    next
      case False
      have inv: "\<forall>cur'. InSection cur = InSection cur' \<longrightarrow>
          (\<exists>i<Suc p. beginMarkerName (E ! i) = Some cur'
             \<and> (\<forall>m<Suc p. i < m \<longrightarrow> endMarkerName (E ! m) \<noteq> Some cur'))"
        using i False line by (intro allI impI exI [of _ i]) (auto simp: less_Suc_eq)
      have "subseq (?out (Suc p)) (MergeEngine X (InSection cur) rest)"
        by (rule Cons.IH [OF Sp rest inv])
      with outp InSection False show ?thesis by simp
    qed
  qed
qed

lemma no_markers_outside:
  assumes "\<forall>l\<in>set E. beginMarkerName l = None"
  shows "sectionsTerminated E \<and> outsideLines E = E"
proof -
  from assms have none: "beginMarkerName (E ! i) = None" if "i < length E" for i
    using that by simp
  then have "sectionsTerminated E" by (simp add: sectionsTerminated_def)
  moreover have "\<not> markedSection E i j" for i j
    using none [of i] by (auto simp: markedSection_def)
  then have "outsideSections E k" for k by (simp add: outsideSections_def)
  then have "outsideLines E = map (\<lambda>k. E ! k) [0..<length E]"
    by (simp add: outsideLines_def)
  then have "outsideLines E = E" by (simp add: map_nth)
  ultimately show ?thesis by simp
qed

lemma getTemplateSection_textLines:
  assumes "getTemplateSection mc out n = Some sec"
  shows "sec = joinLines (textLines sec) \<and> (\<forall>l\<in>set (textLines sec). NL \<notin> set l)"
proof -
  from getTemplateSection_lines [OF assms] obtain sl
    where "sec = joinLines sl" and "\<forall>l\<in>set sl. NL \<notin> set l"
    by blast
  then show ?thesis by (simp add: textLines_joinLines)
qed

lemma ex_less_Suc: "(\<exists>i<Suc n. P i) \<longleftrightarrow> P n \<or> (\<exists>i<n. P i)"
  by (auto simp: less_Suc_eq)

lemma all_less_Suc: "(\<forall>i<Suc n. P i) \<longleftrightarrow> P n \<and> (\<forall>i<n. P i)"
  by (auto simp: less_Suc_eq)

text \<open>
  Claim C3 does not hold as stated. In each of the three existing files below no line is a
  begin-marker line, so the precondition holds and every line lies outside all marked
  sections. The first has a comment that mentions a marker: the merge keeps the line \<^verbatim>\<open>a\<close>
  alone. The second has a line of 65536 letters: the merge keeps the line \<^verbatim>\<open>a\<close> alone. The
  third has a line that ends with a carriage return: the merge writes it without. The
  fourth existing file has one marked section, named \<^verbatim>\<open>(\<close>, which is closed, and the lines
  \<^verbatim>\<open>a\<close> and \<^verbatim>\<open>b\<close> outside of it: \<^verbatim>\<open>regexp.MustCompile\<close> panics on the pattern built from that
  name and nothing is merged.
\<close>

theorem merge_outside_lines_counterexample:
  "HasSuffix ''./gen/templates/model.go'' ''.go''
   \<and> sectionsTerminated (textLines exampleInlineMarker)
   \<and> outsideLines (textLines exampleInlineMarker)
       = [''a'', ''// see //template:begin model'', ''b'']
   \<and> mergeExisting literalCompile ''./gen/templates/model.go'' exampleRendered
         (Some exampleInlineMarker) = Some (joinLines [''a''])
   \<and> sectionsTerminated (textLines exampleLongTemplate)
   \<and> outsideLines (textLines exampleLongTemplate)
       = [''a'', replicate MaxScanTokenSize (CHR ''x''), ''b'']
   \<and> mergeExisting literalCompile ''./gen/templates/model.go'' exampleRendered
         (Some exampleLongTemplate) = Some (joinLines [''a''])
   \<and> sectionsTerminated (textLines exampleCarriageReturn)
   \<and> outsideLines (textLines exampleCarriageReturn) = [''a'' @ [CR], ''b'']
   \<and> mergeExisting literalCompile ''./gen/templates/model.go'' exampleRendered
         (Some exampleCarriageReturn) = Some (joinLines [''a'', ''b''])
   \<and> sectionsTerminated (textLines exampleParenthesis)
   \<and> outsideLines (textLines exampleParenthesis) = [''a'', ''b'']
   \<and> mergeExisting literalCompile ''./gen/templates/model.go'' exampleRendered
         (Some exampleParenthesis) = None"
proof -
  have names: "beginMarkerName ''a'' = None" "endMarkerName ''a'' = None"
    "beginMarkerName ''//template:begin ('' = Some ''(''"
    "endMarkerName ''//template:begin ('' = None"
    "beginMarkerName ''old'' = None" "endMarkerName ''old'' = None"
    "beginMarkerName ''//template:end ('' = None"
    "endMarkerName ''//template:end ('' = Some ''(''"
    "beginMarkerName ''b'' = None" "endMarkerName ''b'' = None"
    by (simp_all add: beginMarkerName_def endMarkerName_def validName_def whitespace_def)
  have paren: "sectionsTerminated (textLines exampleParenthesis)"
    "outsideLines (textLines exampleParenthesis) = [''a'', ''b'']"
    unfolding textLines_examples sectionsTerminated_def outsideLines_def outsideSections_def
      markedSection_def
    by (simp_all add: upt_rec all_less_Suc ex_less_Suc names)
  have regex4: "beginRegex ''//template:begin ('' = [''//template:begin ('', ''('']"
    "endRegex ''old'' = []"
    "endRegex ''//template:end ('' = [''//template:end ('', ''('']"
    by (simp_all add: beginRegex_def endRegex_def reSpace_def)
  have panic: "getTemplateSection literalCompile exampleRendered ''('' = None"
    by (simp add: getTemplateSection_def literalCompile_def beginPattern_def endPattern_def
        wordChar_def)
  have "beginMarkerName (CHR ''x'' # s) = None" for s
    by (simp add: beginMarkerName_def)
  from this [of "replicate (MaxScanTokenSize - 1) (CHR ''x'')"]
  have x: "beginMarkerName (replicate MaxScanTokenSize (CHR ''x'')) = None"
    by (simp add: MaxScanTokenSize_def flip: replicate_Suc)
  have inline: "sectionsTerminated (textLines exampleInlineMarker)
      \<and> outsideLines (textLines exampleInlineMarker) = textLines exampleInlineMarker"
    by (rule no_markers_outside) (simp add: textLines_examples beginMarkerName_def)
  have long: "sectionsTerminated (textLines exampleLongTemplate)
      \<and> outsideLines (textLines exampleLongTemplate) = textLines exampleLongTemplate"
    by (rule no_markers_outside) (simp add: textLines_examples x, simp add: beginMarkerName_def)
  have cr: "sectionsTerminated (textLines exampleCarriageReturn)
      \<and> outsideLines (textLines exampleCarriageReturn) = textLines exampleCarriageReturn"
    by (rule no_markers_outside) (simp add: textLines_examples beginMarkerName_def)
  have regex: "beginRegex ''a'' = []" "beginRegex ''b'' = []"
    "beginRegex ''// see //template:begin model''
       = [''//template:begin model'', ''model'']"
    "endRegex ''b'' = []"
    by (simp_all add: beginRegex_def endRegex_def reSpace_def)
  have m1: "mergeExisting literalCompile ''./gen/templates/model.go'' exampleRendered
         (Some exampleInlineMarker) = Some (joinLines [''a''])"
    by (simp add: mergeExisting_def example_paths ScanLines_examples regex)
  have m2: "mergeExisting literalCompile ''./gen/templates/model.go'' exampleRendered
         (Some exampleLongTemplate) = Some (joinLines [''a''])"
    by (simp add: mergeExisting_def example_paths ScanLines_exampleLongTemplate regex)
  have m3: "mergeExisting literalCompile ''./gen/templates/model.go'' exampleRendered
         (Some exampleCarriageReturn) = Some (joinLines [''a'', ''b''])"
    by (simp add: mergeExisting_def example_paths ScanLines_exampleCarriageReturn regex)
  have m4: "mergeExisting literalCompile ''./gen/templates/model.go'' exampleRendered
         (Some exampleParenthesis) = None"
    by (simp add: mergeExisting_def example_paths ScanLines_examples regex regex4 panic)
  from inline long cr paren m1 m2 m3 m4 example_paths(1) show ?thesis
    by (simp only: textLines_examples simp_thms)
qed

text \<open>
  Claim C3, amended. Take a template with the suffix \<^verbatim>\<open>.go\<close> and an existing file whose lines
  are shorter than the scanner's buffer and do not end with a carriage return, in which a
  marker token in front of a whitespace character occurs in whole-line marker lines only,
  and in which every begin-marker line is followed by an end-marker line with the same
  name. Then in every merged text that the merge returns, the lines of the existing file
  that lie outside all marked sections are among the lines, unchanged and in their order.
  The merge returns a text unless \<^verbatim>\<open>regexp.MustCompile\<close> panics on a pattern built from the
  name in an end-marker line.
\<close>

theorem merge_preserves_lines_outside_sections:
  assumes "HasSuffix templatePath ''.go''"
    and "plainLines existing"
    and "wholeLineMarkers (textLines existing)"
    and "sectionsTerminated (textLines existing)"
  shows "(\<forall>merged. mergeExisting MustCompile templatePath output (Some existing) = Some merged
            \<longrightarrow> subseq (outsideLines (textLines existing)) (textLines merged))
         \<and> (compilesMarkers MustCompile (textLines existing)
            \<longrightarrow> (\<exists>merged. mergeExisting MustCompile templatePath output (Some existing)
                   = Some merged))"
proof (intro conjI allI impI)
  let ?E = "textLines existing"
  define X where "X = (\<lambda>n. case getTemplateSection MustCompile output n of
                              None \<Rightarrow> [] | Some sec \<Rightarrow> textLines sec)"
  from assms(2) have scan: "ScanLines existing = ?E" by (rule plainLines_ScanLines)
  fix merged
  assume "mergeExisting MustCompile templatePath output (Some existing) = Some merged"
  with assms(1) scan obtain cur'
    where run: "mergeLoop MustCompile output (currentSectionName Outside) [] ?E
                  = Some (merged, cur')"
    by (auto simp: mergeExisting_def)
  have secs: "\<forall>l\<in>set ?E. \<forall>n sec. endMarkerName l = Some n \<longrightarrow>
           getTemplateSection MustCompile output n = Some sec \<longrightarrow> sec = joinLines (X n)"
    using getTemplateSection_textLines by (auto simp: X_def)
  from mergeLoop_MergeEngine [OF assms(3) secs _ run]
  have merged: "merged = joinLines (MergeEngine X Outside ?E)" by simp
  have "NL \<notin> set l" if "l \<in> set (MergeEngine X Outside ?E)" for l
  proof -
    from MergeEngine_lines [OF that]
    consider "l \<in> set ?E" | n where "l \<in> set (X n)" by blast
    then show ?thesis
    proof cases
      case 1
      then show ?thesis by (rule textLines_no_NL)
    next
      case 2
      then show ?thesis
        by (auto simp: X_def split: option.splits dest: textLines_no_NL)
    qed
  qed
  with merged have "textLines merged = MergeEngine X Outside ?E"
    by (simp add: textLines_joinLines)
  moreover from MergeEngine_keeps_outside [OF assms(4), of 0 ?E Outside X]
  have "subseq (outsideLines ?E) (MergeEngine X Outside ?E)"
    by (simp add: outsideLines_def)
  ultimately show "subseq (outsideLines ?E) (textLines merged)" by simp
next
  assume "compilesMarkers MustCompile (textLines existing)"
  from mergeLoop_returns [OF this subset_refl, of "output" "[]" "[]"] assms(1,2)
  show "\<exists>merged. mergeExisting MustCompile templatePath output (Some existing) = Some merged"
    by (auto simp: mergeExisting_def plainLines_ScanLines)
qed

lemma markerNames:
  "beginMarkerName ''// kept'' = None" "endMarkerName ''// kept'' = None"
  "beginMarkerName ''//template:begin model'' = Some ''model''"
  "endMarkerName ''//template:begin model'' = None"
  "beginMarkerName ''stale'' = None" "endMarkerName ''stale'' = None"
  "beginMarkerName ''//template:end model'' = None"
  "endMarkerName ''//template:end model'' = Some ''model''"
  "beginMarkerName ''// also kept'' = None" "endMarkerName ''// also kept'' = None"
  by (simp_all add: beginMarkerName_def endMarkerName_def validName_def whitespace_def)

lemma example_whole_line: "wholeLineMarkers (textLines exampleExisting)"
  unfolding textLines_examples wholeLineMarkers_def
  by (simp add: markerNames whitespace_def)

lemma example_terminated: "sectionsTerminated (textLines exampleExisting)"
  unfolding textLines_examples sectionsTerminated_def
  by (simp add: all_less_Suc ex_less_Suc markerNames)

lemma example_compiles: "compilesMarkers literalCompile (textLines exampleExisting)"
  unfolding textLines_examples compilesMarkers_def
  by (simp add: markers compile_model)

lemma example_outside:
  "outsideLines (textLines exampleExisting) = [''// kept'', ''// also kept'']"
  unfolding textLines_examples outsideLines_def outsideSections_def markedSection_def
  by (simp add: upt_rec all_less_Suc ex_less_Suc markerNames)

theorem merge_preserves_lines_outside_sections_witness:
  "HasSuffix ''./gen/templates/model.go'' ''.go''
   \<and> plainLines exampleExisting
   \<and> wholeLineMarkers (textLines exampleExisting)
   \<and> sectionsTerminated (textLines exampleExisting)
   \<and> compilesMarkers literalCompile (textLines exampleExisting)
   \<and> outsideLines (textLines exampleExisting) = [''// kept'', ''// also kept'']
   \<and> mergeExisting literalCompile ''./gen/templates/model.go'' exampleRendered
         (Some exampleExisting)
       = Some (joinLines [''// kept'', ''//template:begin model'', ''new'',
                 ''//template:end model'', ''// also kept''])
   \<and> subseq [''// kept'', ''// also kept'']
         (textLines (joinLines [''// kept'', ''//template:begin model'', ''new'',
                 ''//template:end model'', ''// also kept'']))"
proof -
  have merged: "mergeExisting literalCompile ''./gen/templates/model.go'' exampleRendered
         (Some exampleExisting)
       = Some (joinLines [''// kept'', ''//template:begin model'', ''new'',
                 ''//template:end model'', ''// also kept''])"
    using example_paths(1) by (simp add: mergeExisting_def merge_example)
  from merge_preserves_lines_outside_sections
    [OF example_paths(1) plainLines_examples(2) example_whole_line example_terminated,
      of literalCompile exampleRendered] merged
  have "subseq (outsideLines (textLines exampleExisting))
         (textLines (joinLines [''// kept'', ''//template:begin model'', ''new'',
                 ''//template:end model'', ''// also kept'']))"
    by blast
  with example_paths(1) plainLines_examples(2) example_whole_line example_terminated
    example_compiles example_outside merged
  show ?thesis by (simp only: simp_thms)
qed
subsection \<open>Where a section is inserted\<close>

lemma sectionLoop_skip:
  "\<forall>l\<in>set before. \<not> beginRe l \<Longrightarrow>
   sectionLoop beginRe endRe False result (before @ rest)
     = sectionLoop beginRe endRe False result rest"
  by (induction before) simp_all

lemma marker_line_cases:
  assumes "validName n"
  shows "beginMarkerName l = None \<Longrightarrow> l \<noteq> beginLine n"
    and "endMarkerName l = None \<Longrightarrow> l \<noteq> endLine n"
    and "endMarkerName l = Some m \<Longrightarrow> l \<noteq> beginLine n"
    and "beginMarkerName l = Some m \<Longrightarrow> l \<noteq> endLine n"
    and "beginMarkerName l = Some m \<Longrightarrow> m \<noteq> n \<Longrightarrow> l \<noteq> beginLine n"
    and "endMarkerName l = Some m \<Longrightarrow> m \<noteq> n \<Longrightarrow> l \<noteq> endLine n"
  using markerName_lines [of n] assms by auto

lemma closedSections_seen:
  "closedSections seen st R \<Longrightarrow> validName n \<Longrightarrow> n \<in> set seen \<Longrightarrow> beginLine n \<notin> set R"
proof (induction seen st R rule: closedSections.induct)
  case (1 seen)
  show ?case by simp
next
  case (2 seen name)
  show ?case by simp
next
  case (3 seen line R)
  show ?case
  proof (cases "beginMarkerName line")
    case None
    with "3.prems" "3.IH"(1) [OF None] marker_line_cases(1) [OF "3.prems"(2) None]
    show ?thesis by simp
  next
    case (Some m)
    with "3.prems" have "m \<noteq> n" by auto
    with "3.prems" "3.IH"(2) [OF Some] Some marker_line_cases(5) [OF "3.prems"(2) Some]
    show ?thesis by simp
  qed
next
  case (4 seen name line R)
  show ?case
  proof (cases "endMarkerName line = Some name")
    case True
    with "4.prems" "4.IH"(1) [OF True] marker_line_cases(3) [OF "4.prems"(2) True]
    show ?thesis by simp
  next
    case False
    with "4.prems" have none: "beginMarkerName line = None" by simp
    with False "4.prems" "4.IH"(2) [OF False] marker_line_cases(1) [OF "4.prems"(2) none]
    show ?thesis by simp
  qed
qed

lemma extractSection_Cons:
  "line \<noteq> beginLine n \<Longrightarrow> extractSection (line # R) n = extractSection R n"
  "extractSection (beginLine n # R) n =
     (if endLine n \<in> set R
      then beginLine n # takeWhile (\<lambda>l. l \<noteq> endLine n) R @ [endLine n] else [])"
  by (simp_all add: extractSection_def)

lemma sectionLoop_inside:
  assumes "validName n"
  shows "closedSections seen (InSection n) R \<Longrightarrow> n \<in> set seen \<Longrightarrow>
     \<forall>l\<in>set R. beginRe l = (l = beginLine n) \<Longrightarrow>
     \<forall>l\<in>set R. endRe l = (l = endLine n) \<Longrightarrow>
     endLine n \<in> set R
     \<and> sectionLoop beginRe endRe True result R
         = result @ joinLines (takeWhile (\<lambda>l. l \<noteq> endLine n) R @ [endLine n])"
proof (induction R arbitrary: result)
  case Nil
  then show ?case by simp
next
  case (Cons line R)
  show ?case
  proof (cases "endMarkerName line = Some n")
    case True
    with endMarkerName_line [of line n] have line: "line = endLine n" by simp
    from True Cons.prems(1) have "closedSections seen Outside R" by simp
    from closedSections_seen [OF this assms Cons.prems(2)] Cons.prems(3)
    have "\<forall>l\<in>set R. \<not> beginRe l" by auto
    from sectionLoop_skip [OF this, of endRe "result @ line @ [NL]" "[]"]
    have "sectionLoop beginRe endRe False (result @ line @ [NL]) R = result @ line @ [NL]"
      by simp
    with line Cons.prems(4) show ?thesis by simp
  next
    case False
    with Cons.prems(1) have none: "endMarkerName line = None"
      and rest: "closedSections seen (InSection n) R"
      by simp_all
    from marker_line_cases(2) [OF assms none] have ne: "line \<noteq> endLine n" .
    from Cons.prems(3,4) have "\<forall>l\<in>set R. beginRe l = (l = beginLine n)"
      and "\<forall>l\<in>set R. endRe l = (l = endLine n)"
      by simp_all
    from Cons.IH [OF rest Cons.prems(2) this, of "result @ line @ [NL]"] ne Cons.prems(4)
    show ?thesis by simp
  qed
qed

lemma sectionLoop_extractSection:
  assumes "validName n"
  shows "closedSections seen st R \<Longrightarrow> n \<notin> set seen \<Longrightarrow> st \<noteq> InSection n \<Longrightarrow>
     \<forall>l\<in>set R. beginRe l = (l = beginLine n) \<Longrightarrow>
     \<forall>l\<in>set R. endRe l = (l = endLine n) \<Longrightarrow>
     sectionLoop beginRe endRe False result R = result @ joinLines (extractSection R n)"
proof (induction seen st R rule: closedSections.induct)
  case (1 seen)
  show ?case by (simp add: extractSection_def)
next
  case (2 seen name)
  show ?case by (simp add: extractSection_def)
next
  case (3 seen line R)
  from "3.prems"(4,5) have re: "\<forall>l\<in>set R. beginRe l = (l = beginLine n)"
    "\<forall>l\<in>set R. endRe l = (l = endLine n)"
    and here: "beginRe line = (line = beginLine n)"
    by simp_all
  show ?case
  proof (cases "beginMarkerName line")
    case None
    from marker_line_cases(1) [OF assms None] have ne: "line \<noteq> beginLine n" .
    from None "3.prems"(1) have "closedSections seen Outside R" by simp
    from "3.IH"(1) [OF None this "3.prems"(2) _ re] ne here show ?thesis
      by (simp add: extractSection_Cons)
  next
    case (Some m)
    with "3.prems"(1) have m: "m \<notin> set seen"
      and rest: "closedSections (m # seen) (InSection m) R"
      by simp_all
    show ?thesis
    proof (cases "m = n")
      case True
      with Some beginMarkerName_line [of line n] have line: "line = beginLine n" by simp
      from sectionLoop_inside [OF assms, of "n # seen" R beginRe endRe "result @ line @ [NL]"]
        rest True re
      have "endLine n \<in> set R"
        and "sectionLoop beginRe endRe True (result @ line @ [NL]) R
               = (result @ line @ [NL])
                 @ joinLines (takeWhile (\<lambda>l. l \<noteq> endLine n) R @ [endLine n])"
        by simp_all
      with line here show ?thesis by (simp add: extractSection_Cons)
    next
      case False
      from marker_line_cases(5) [OF assms Some False] have ne: "line \<noteq> beginLine n" .
      from False "3.prems"(2) have "n \<notin> set (m # seen)" by simp
      from "3.IH"(2) [OF Some rest this _ re] False ne here show ?thesis
        by (simp add: extractSection_Cons)
    qed
  qed
next
  case (4 seen name line R)
  from "4.prems"(4,5) have re: "\<forall>l\<in>set R. beginRe l = (l = beginLine n)"
    "\<forall>l\<in>set R. endRe l = (l = endLine n)"
    and here: "beginRe line = (line = beginLine n)"
    by simp_all
  show ?case
  proof (cases "endMarkerName line = Some name")
    case True
    from marker_line_cases(3) [OF assms True] have ne: "line \<noteq> beginLine n" .
    from True "4.prems"(1) have "closedSections seen Outside R" by simp
    from "4.IH"(1) [OF True this "4.prems"(2) _ re] ne here show ?thesis
      by (simp add: extractSection_Cons)
  next
    case False
    with "4.prems"(1) have none: "beginMarkerName line = None"
      and rest: "closedSections seen (InSection name) R"
      by simp_all
    from marker_line_cases(1) [OF assms none] have ne: "line \<noteq> beginLine n" .
    from "4.IH"(2) [OF False rest "4.prems"(2,3) re] ne here show ?thesis
      by (simp add: extractSection_Cons)
  qed
qed

lemma getTemplateSection_extractSection:
  assumes "closedSections [] Outside (ScanLines out)" and "validName n"
    and "matchesLiterally mc (ScanLines out) n"
  shows "getTemplateSection mc out n = Some (joinLines (extractSection (ScanLines out) n))"
proof -
  from assms(3) obtain beginRe endRe
    where re: "mc (beginPattern n) = Some beginRe" "mc (endPattern n) = Some endRe"
      "\<forall>l\<in>set (ScanLines out). beginRe l = (l = beginLine n)"
      "\<forall>l\<in>set (ScanLines out). endRe l = (l = endLine n)"
    unfolding matchesLiterally_def by blast
  from sectionLoop_extractSection [OF assms(2) assms(1) _ _ re(3,4), of "[]"]
  have "sectionLoop beginRe endRe False [] (ScanLines out)
          = joinLines (extractSection (ScanLines out) n)"
    by simp
  with re(1,2) show ?thesis by (simp add: getTemplateSection_def)
qed

lemma plain_inside:
  "closedSections seen (InSection m) R \<Longrightarrow> l \<in> set (takeWhile (\<lambda>l. l \<noteq> endLine m) R) \<Longrightarrow>
   beginMarkerName l = None \<and> endMarkerName l = None"
proof (induction R)
  case Nil
  then show ?case by simp
next
  case (Cons line R)
  show ?case
  proof (cases "endMarkerName line = Some m")
    case True
    with endMarkerName_line [of line m] Cons.prems(2) show ?thesis by simp
  next
    case False
    with Cons.prems Cons.IH show ?thesis by (auto split: if_splits)
  qed
qed

lemma extractSection_markers:
  assumes "validName m"
  shows "closedSections seen st R \<Longrightarrow> st \<noteq> InSection m \<Longrightarrow> l \<in> set (extractSection R m) \<Longrightarrow>
     l = beginLine m \<or> l = endLine m \<or> (beginMarkerName l = None \<and> endMarkerName l = None)"
proof (induction seen st R rule: closedSections.induct)
  case (1 seen)
  then show ?case by (simp add: extractSection_def)
next
  case (2 seen name)
  then show ?case by (simp add: extractSection_def)
next
  case (3 seen line R)
  show ?case
  proof (cases "beginMarkerName line")
    case None
    from marker_line_cases(1) [OF assms None] have ne: "line \<noteq> beginLine m" .
    from None "3.prems"(1) have "closedSections seen Outside R" by simp
    from "3.IH"(1) [OF None this] "3.prems"(3) ne show ?thesis
      by (simp add: extractSection_Cons)
  next
    case (Some k)
    with "3.prems"(1) have rest: "closedSections (k # seen) (InSection k) R" by simp
    show ?thesis
    proof (cases "k = m")
      case True
      with Some beginMarkerName_line [of line m] have line: "line = beginLine m" by simp
      with "3.prems"(3) have "l = beginLine m \<or> l = endLine m
          \<or> l \<in> set (takeWhile (\<lambda>l. l \<noteq> endLine m) R)"
        by (auto simp: extractSection_Cons split: if_splits)
      with plain_inside [of "m # seen" m R l] rest True show ?thesis by auto
    next
      case False
      from marker_line_cases(5) [OF assms Some False] have ne: "line \<noteq> beginLine m" .
      from "3.IH"(2) [OF Some rest] False "3.prems"(3) ne show ?thesis
        by (simp add: extractSection_Cons)
    qed
  qed
next
  case (4 seen name line R)
  show ?case
  proof (cases "endMarkerName line = Some name")
    case True
    from marker_line_cases(3) [OF assms True] have ne: "line \<noteq> beginLine m" .
    from True "4.prems"(1) have "closedSections seen Outside R" by simp
    from "4.IH"(1) [OF True this] "4.prems"(3) ne show ?thesis
      by (simp add: extractSection_Cons)
  next
    case False
    with "4.prems"(1) have none: "beginMarkerName line = None"
      and rest: "closedSections seen (InSection name) R"
      by simp_all
    from marker_line_cases(1) [OF assms none] have ne: "line \<noteq> beginLine m" .
    from "4.IH"(2) [OF False rest "4.prems"(2)] "4.prems"(3) ne show ?thesis
      by (simp add: extractSection_Cons)
  qed
qed

lemma MergeEngine_no_foreign_marker:
  assumes closed: "closedSections [] Outside R" and n: "validName n"
    and absent: "\<forall>l\<in>set E. endMarkerName l \<noteq> Some n"
  shows "beginLine n \<notin> set (MergeEngine (extractSection R) st E)
         \<and> endLine n \<notin> set (MergeEngine (extractSection R) st E)"
proof -
  have "l \<noteq> beginLine n \<and> l \<noteq> endLine n"
    if "l \<in> set (MergeEngine (extractSection R) st E)" for l
  proof -
    from MergeEngine_lines [OF that]
    consider "l \<in> set E" "beginMarkerName l = None"
      | e m where "e \<in> set E" "endMarkerName e = Some m" "l \<in> set (extractSection R m)"
      by auto
    then show ?thesis
    proof cases
      case 1
      with absent have "endMarkerName l \<noteq> Some n" by simp
      with 1(2) markerName_lines(1,2) [OF n] show ?thesis by auto
    next
      case 2
      from 2(1,2) absent have ne: "m \<noteq> n" by auto
      from endMarkerName_line [OF 2(2)] have m: "validName m" by simp
      from extractSection_markers [OF m closed _ 2(3)]
      have "l = beginLine m \<or> l = endLine m
          \<or> (beginMarkerName l = None \<and> endMarkerName l = None)"
        by simp
      with ne markerName_lines [of m] markerName_lines [of n] m n show ?thesis by auto
    qed
  qed
  then show ?thesis by blast
qed

text \<open>
  Claim C5 does not hold as stated. In the first run the rendered text has a section \<^verbatim>\<open>m\<close>
  that is never closed, followed by a section \<^verbatim>\<open>n\<close>, and the existing file has the section
  \<^verbatim>\<open>m\<close> only: the merged text holds section \<^verbatim>\<open>n\<close>, for which the existing file has no
  marker, because \<^verbatim>\<open>getTemplateSection\<close> collects up to the next end line of \<^verbatim>\<open>m\<close> or the end
  of the text. In the second run the section of the existing file is named \<^verbatim>\<open>.*\<close>, which is
  spliced into the patterns as it is: the merged text holds the sections \<^verbatim>\<open>model\<close> and
  \<^verbatim>\<open>extra\<close> of the rendered text. In the third run the existing file has no marker line,
  only marker text at the end of longer lines, and the merged text holds the section
  \<^verbatim>\<open>model\<close>.
\<close>

theorem section_inserted_counterexample:
  "ScanLines exampleOpenRendered
     = [''//template:begin m'', ''1'', ''//template:begin n'', ''2'', ''//template:end n'']
   \<and> ScanLines exampleExistingM
     = [''keep'', ''//template:begin m'', ''old'', ''//template:end m'', ''tail'']
   \<and> map beginMarkerName (ScanLines exampleExistingM) = [None, Some ''m'', None, None, None]
   \<and> map endMarkerName (ScanLines exampleExistingM) = [None, None, None, Some ''m'', None]
   \<and> mergeExisting literalCompile ''./gen/templates/model.go'' exampleOpenRendered
        (Some exampleExistingM)
      = Some (joinLines [''keep'', ''//template:begin m'', ''1'', ''//template:begin n'', ''2'',
                ''//template:end n'', ''tail''])
   \<and> ScanLines exampleWildcard = [''//template:begin .*'', ''old'', ''//template:end .*'']
   \<and> map endMarkerName (ScanLines exampleWildcard) = [None, None, Some ''.*'']
   \<and> mergeExisting wildcardCompile ''./gen/templates/model.go'' exampleRendered
        (Some exampleWildcard)
      = Some (joinLines [''//template:begin model'', ''new'', ''//template:end model'',
                ''//template:begin extra'', ''added'', ''//template:end extra''])
   \<and> ScanLines exampleInlineSection
     = [''x //template:begin model'', ''old'', ''y //template:end model'']
   \<and> map beginMarkerName (ScanLines exampleInlineSection) = [None, None, None]
   \<and> map endMarkerName (ScanLines exampleInlineSection) = [None, None, None]
   \<and> mergeExisting literalCompile ''./gen/templates/model.go'' exampleRendered
        (Some exampleInlineSection)
      = Some (joinLines [''//template:begin model'', ''new'', ''//template:end model''])"
proof -
  have names: "map beginMarkerName (ScanLines exampleExistingM)
                 = [None, Some ''m'', None, None, None]"
    "map endMarkerName (ScanLines exampleExistingM) = [None, None, None, Some ''m'', None]"
    "map endMarkerName (ScanLines exampleWildcard) = [None, None, Some ''.*'']"
    "map beginMarkerName (ScanLines exampleInlineSection) = [None, None, None]"
    "map endMarkerName (ScanLines exampleInlineSection) = [None, None, None]"
    by (simp_all add: ScanLines_examples beginMarkerName_def endMarkerName_def validName_def
        whitespace_def)
  have regex:
    "beginRegex ''keep'' = []" "beginRegex ''tail'' = []"
    "beginRegex ''//template:begin m'' = [''//template:begin m'', ''m'']"
    "endRegex ''old'' = []"
    "endRegex ''//template:end m'' = [''//template:end m'', ''m'']"
    "beginRegex ''//template:begin .*'' = [''//template:begin .*'', ''.*'']"
    "endRegex ''//template:end .*'' = [''//template:end .*'', ''.*'']"
    "beginRegex ''x //template:begin model'' = [''//template:begin model'', ''model'']"
    "endRegex ''y //template:end model'' = [''//template:end model'', ''model'']"
    by (simp_all add: beginRegex_def endRegex_def reSpace_def)
  have compile_m:
    "literalCompile (beginPattern ''m'') = Some (endsWithMarker ''//template:begin'' ''m'')"
    "literalCompile (endPattern ''m'') = Some (endsWithMarker ''//template:end'' ''m'')"
    by (simp_all add: literalCompile_def beginPattern_def endPattern_def wordChar_def)
  have section_m: "getTemplateSection literalCompile exampleOpenRendered ''m''
      = Some (joinLines [''//template:begin m'', ''1'', ''//template:begin n'', ''2'',
                ''//template:end n''])"
    by (simp add: getTemplateSection_def compile_m ScanLines_examples
        endsWithMarker_def reSpace_def Let_def)
  have m1: "mergeExisting literalCompile ''./gen/templates/model.go'' exampleOpenRendered
        (Some exampleExistingM)
      = Some (joinLines [''keep'', ''//template:begin m'', ''1'', ''//template:begin n'', ''2'',
                ''//template:end n'', ''tail''])"
    by (simp add: mergeExisting_def example_paths ScanLines_examples regex section_m)
  have compile_wild:
    "wildcardCompile (beginPattern ''.*'') = Some (\<lambda>line. beginRegex line \<noteq> [])"
    "wildcardCompile (endPattern ''.*'') = Some (\<lambda>line. endRegex line \<noteq> [])"
    by (simp_all add: wildcardCompile_def beginPattern_def endPattern_def)
  have section_wild: "getTemplateSection wildcardCompile exampleRendered ''.*''
      = Some (joinLines [''//template:begin model'', ''new'', ''//template:end model'',
                ''//template:begin extra'', ''added'', ''//template:end extra''])"
    by (simp add: getTemplateSection_def compile_wild ScanLines_examples
        beginRegex_def endRegex_def reSpace_def)
  have m2: "mergeExisting wildcardCompile ''./gen/templates/model.go'' exampleRendered
        (Some exampleWildcard)
      = Some (joinLines [''//template:begin model'', ''new'', ''//template:end model'',
                ''//template:begin extra'', ''added'', ''//template:end extra''])"
    by (simp add: mergeExisting_def example_paths ScanLines_examples regex section_wild)
  have m3: "mergeExisting literalCompile ''./gen/templates/model.go'' exampleRendered
        (Some exampleInlineSection)
      = Some (joinLines [''//template:begin model'', ''new'', ''//template:end model''])"
    by (simp add: mergeExisting_def example_paths ScanLines_examples regex section_model)
  from names m1 m2 m3 show ?thesis
    by (simp only: ScanLines_examples simp_thms)
qed

text \<open>
  Claim C5, amended. Take a template with the suffix \<^verbatim>\<open>.go\<close>, and read the rendered text and
  the existing file as the scanner does. Let the marked sections of the rendered text be
  closed, not nested and distinctly named, let the existing file carry marker text in
  whole-line marker lines only, and let the patterns that \<^verbatim>\<open>getTemplateSection\<close> builds
  from the names in the end-marker lines of the existing file compile and match the
  marker lines of their name only. Then the merge returns the text of the two-state scan:
  the block of a section (begin line through end line, from the rendered text) is appended
  exactly where the end-marker line of the open section is reached, and every other line
  of the result is a line of the existing file from outside the sections. A section
  whose name has no end-marker line in the existing file is not inserted: neither its
  begin line nor its end line occurs in the merged text.
\<close>

theorem section_inserted_only_at_matching_end_marker:
  assumes "HasSuffix templatePath ''.go''"
    and "closedSections [] Outside (ScanLines output)"
    and "wholeLineMarkers (ScanLines existing)"
    and "\<forall>l\<in>set (ScanLines existing). \<forall>n. endMarkerName l = Some n \<longrightarrow>
           matchesLiterally MustCompile (ScanLines output) n"
  shows "mergeExisting MustCompile templatePath output (Some existing)
           = Some (joinLines (MergeEngine (extractSection (ScanLines output)) Outside
                                (ScanLines existing)))
     \<and> (\<forall>n. validName n \<and> (\<forall>l\<in>set (ScanLines existing). endMarkerName l \<noteq> Some n) \<longrightarrow>
          beginLine n \<notin> set (MergeEngine (extractSection (ScanLines output)) Outside
                                (ScanLines existing))
          \<and> endLine n \<notin> set (MergeEngine (extractSection (ScanLines output)) Outside
                                (ScanLines existing)))"
proof (intro conjI allI impI)
  let ?R = "ScanLines output" and ?E = "ScanLines existing"
  have secs: "getTemplateSection MustCompile output n = Some (joinLines (extractSection ?R n))"
    if "l \<in> set ?E" and "endMarkerName l = Some n" for l n
  proof -
    from endMarkerName_line [OF that(2)] have "validName n" by simp
    moreover from assms(4) that have "matchesLiterally MustCompile ?R n" by blast
    ultimately show ?thesis using assms(2) by (intro getTemplateSection_extractSection)
  qed
  have "getTemplateSection MustCompile output n \<noteq> None"
    if "l \<in> set ?E" and "closesSection n l" for l n
    using secs [OF that(1) wholeLine_closes [OF assms(3) that]] by simp
  then have "\<forall>l\<in>set ?E. \<forall>n. n \<noteq> [] \<and> closesSection n l \<longrightarrow>
      getTemplateSection MustCompile output n \<noteq> None"
    by blast
  from mergeLoop_returns_sections [OF this, of "[]" "[]"] obtain res cur'
    where run: "mergeLoop MustCompile output (currentSectionName Outside) [] ?E
                  = Some (res, cur')"
    by auto
  have "\<forall>l\<in>set ?E. \<forall>n sec. endMarkerName l = Some n \<longrightarrow>
      getTemplateSection MustCompile output n = Some sec \<longrightarrow>
      sec = joinLines (extractSection ?R n)"
    using secs by auto
  from mergeLoop_MergeEngine [OF assms(3) this _ run]
  have "res = joinLines (MergeEngine (extractSection ?R) Outside ?E)" by simp
  with run assms(1)
  show "mergeExisting MustCompile templatePath output (Some existing)
          = Some (joinLines (MergeEngine (extractSection ?R) Outside ?E))"
    by (simp add: mergeExisting_def)
next
  fix n
  assume "validName n \<and> (\<forall>l\<in>set (ScanLines existing). endMarkerName l \<noteq> Some n)"
  with MergeEngine_no_foreign_marker [OF assms(2), of n "ScanLines existing" Outside]
  show "beginLine n \<notin> set (MergeEngine (extractSection (ScanLines output)) Outside
                                (ScanLines existing))"
    and "endLine n \<notin> set (MergeEngine (extractSection (ScanLines output)) Outside
                                (ScanLines existing))"
    by simp_all
qed

theorem section_inserted_only_at_matching_end_marker_witness:
  "HasSuffix ''./gen/templates/model.go'' ''.go''
   \<and> closedSections [] Outside (ScanLines exampleRendered)
   \<and> wholeLineMarkers (ScanLines exampleExisting)
   \<and> map endMarkerName (ScanLines exampleExisting) = [None, None, None, Some ''model'', None]
   \<and> matchesLiterally literalCompile (ScanLines exampleRendered) ''model''
   \<and> mergeExisting literalCompile ''./gen/templates/model.go'' exampleRendered
        (Some exampleExisting)
      = Some (joinLines [''// kept'', ''//template:begin model'', ''new'',
                ''//template:end model'', ''// also kept''])
   \<and> MergeEngine (extractSection (ScanLines exampleRendered)) Outside (ScanLines exampleExisting)
      = [''// kept'', ''//template:begin model'', ''new'', ''//template:end model'',
         ''// also kept'']
   \<and> validName ''extra''
   \<and> beginLine ''extra'' \<in> set (ScanLines exampleRendered)
   \<and> beginLine ''extra'' \<notin> set (MergeEngine (extractSection (ScanLines exampleRendered))
                                    Outside (ScanLines exampleExisting))
   \<and> endLine ''extra'' \<notin> set (MergeEngine (extractSection (ScanLines exampleRendered))
                                    Outside (ScanLines exampleExisting))"
proof -
  have renderedNames:
    "beginMarkerName ''package provider'' = None" "endMarkerName ''package provider'' = None"
    "beginMarkerName ''new'' = None" "endMarkerName ''new'' = None"
    "beginMarkerName ''//template:begin extra'' = Some ''extra''"
    "endMarkerName ''//template:begin extra'' = None"
    "beginMarkerName ''added'' = None" "endMarkerName ''added'' = None"
    "beginMarkerName ''//template:end extra'' = None"
    "endMarkerName ''//template:end extra'' = Some ''extra''"
    by (simp_all add: beginMarkerName_def endMarkerName_def validName_def whitespace_def)
  have closed: "closedSections [] Outside (ScanLines exampleRendered)"
    by (simp add: ScanLines_examples markerNames renderedNames)
  have whole: "wholeLineMarkers (ScanLines exampleExisting)"
    using example_whole_line by (simp add: plainLines_ScanLines plainLines_examples)
  have ends: "map endMarkerName (ScanLines exampleExisting)
                = [None, None, None, Some ''model'', None]"
    by (simp add: ScanLines_examples markerNames)
  have literal: "matchesLiterally literalCompile (ScanLines exampleRendered) ''model''"
    unfolding matchesLiterally_def
    by (intro exI [of _ "endsWithMarker ''//template:begin'' ''model''"]
        exI [of _ "endsWithMarker ''//template:end'' ''model''"])
      (simp add: compile_model ScanLines_examples endsWithMarker_def reSpace_def
        beginLine_def endLine_def)
  have hyp: "\<forall>l\<in>set (ScanLines exampleExisting). \<forall>n. endMarkerName l = Some n \<longrightarrow>
           matchesLiterally literalCompile (ScanLines exampleRendered) n"
    using literal by (simp add: ScanLines_examples markerNames)
  have engine: "MergeEngine (extractSection (ScanLines exampleRendered)) Outside
        (ScanLines exampleExisting)
      = [''// kept'', ''//template:begin model'', ''new'', ''//template:end model'',
         ''// also kept'']"
    by (simp add: ScanLines_examples markerNames extractSection_def beginLine_def endLine_def)
  have extra: "validName ''extra''"
    "beginLine ''extra'' \<in> set (ScanLines exampleRendered)"
    "\<forall>l\<in>set (ScanLines exampleExisting). endMarkerName l \<noteq> Some ''extra''"
    by (simp_all add: validName_def whitespace_def beginLine_def ScanLines_examples markerNames)
  from section_inserted_only_at_matching_end_marker
    [OF example_paths(1) closed whole hyp] extra(1,3)
  have "mergeExisting literalCompile ''./gen/templates/model.go'' exampleRendered
          (Some exampleExisting)
        = Some (joinLines (MergeEngine (extractSection (ScanLines exampleRendered)) Outside
                                (ScanLines exampleExisting)))"
    and "beginLine ''extra'' \<notin> set (MergeEngine (extractSection (ScanLines exampleRendered))
                                    Outside (ScanLines exampleExisting))"
    and "endLine ''extra'' \<notin> set (MergeEngine (extractSection (ScanLines exampleRendered))
                                    Outside (ScanLines exampleExisting))"
    by blast+
  with example_paths(1) closed whole ends literal engine extra(1,2) show ?thesis
    by (simp only: simp_thms)
qed
subsection \<open>A section that is never closed\<close>

text \<open>
  Claim C1, as stated, fails. With the existing file of the text below, whose section
  \<^verbatim>\<open>model\<close> is opened and never closed, \<^verbatim>\<open>renderTemplate\<close> ends without an error and the
  destination holds the single line in front of the begin-marker.
\<close>

theorem unterminated_section_counterexample:
  "snd (renderTemplate exampleLibrary ''./gen/templates/model.go''
          ''./internal/provider/model_fmc_host.go'' (ConfigData (mkConfig ''Host'' [] [] []))
          (exampleFs exampleTemplate exampleUnterminated)) = None
   \<and> files (fst (renderTemplate exampleLibrary ''./gen/templates/model.go''
          ''./internal/provider/model_fmc_host.go'' (ConfigData (mkConfig ''Host'' [] [] []))
          (exampleFs exampleTemplate exampleUnterminated)))
         ''./internal/provider/model_fmc_host.go''
       = Some (joinLines [''// kept''])
   \<and> files (exampleFs exampleTemplate exampleUnterminated)
         ''./internal/provider/model_fmc_host.go''
       = Some (joinLines [''// kept'', ''//template:begin model'', ''stale'', ''// lost''])
   \<and> ScanLines exampleUnterminated
       = [''// kept'', ''//template:begin model'', ''stale'', ''// lost'']
   \<and> opensSection ''//template:begin model''
   \<and> sectionName ''//template:begin model'' = ''model''
   \<and> \<not> list_ex (closesSection ''model'') [''stale'', ''// lost'']"
proof -
  have "mergeExisting literalCompile ''./gen/templates/model.go'' exampleRendered
          (Some exampleUnterminated) = Some (joinLines [''// kept''])"
    by (simp add: mergeExisting_def HasSuffix_def merge_example_unterminated)
  then have "renderTemplate exampleLibrary ''./gen/templates/model.go''
          ''./internal/provider/model_fmc_host.go'' (ConfigData (mkConfig ''Host'' [] [] []))
          (exampleFs exampleTemplate exampleUnterminated)
        = ((exampleFs exampleTemplate exampleUnterminated)
             \<lparr>files := (files (exampleFs exampleTemplate exampleUnterminated))
                (''./internal/provider/model_fmc_host.go'' \<mapsto> joinLines [''// kept''])\<rparr>,
           None)"
    by (simp add: renderTemplate_def exampleFs_def exampleLibrary_def readTemplate_example)
  then show ?thesis
    by (simp add: ScanLines_examples opensSection_def sectionName_def
        closesSection_def markers)
      (simp add: exampleFs_def exampleUnterminated_def)
qed

text \<open>
  Claim C1, amended. When the scan of the existing file reaches, outside of any section, a
  begin-marker line with a non-empty name, and no later line is an end-marker with that
  name, \<^verbatim>\<open>renderTemplate\<close> does not fail: it overwrites the destination with the merge of
  the lines in front of that begin-marker line; the line and everything after it are
  dropped.
\<close>

theorem unterminated_section_truncates:
  assumes "files fs templatePath = Some file"
    and "template_Parse lib (path_Base templatePath) (readTemplate templatePath file)
           = Some template"
    and "template_Execute lib template config = Some output"
    and "HasSuffix templatePath ''.go''"
    and "files fs outputPath = Some existing"
    and "creatable fs outputPath"
    and "ScanLines existing = pre @ [marker] @ post"
    and "mergeLoop (regexp_MustCompile lib) output [] [] pre = Some (merged, [])"
    and "opensSection marker"
    and "\<forall>l\<in>set post. \<not> closesSection (sectionName marker) l"
  shows "renderTemplate lib templatePath outputPath config fs
           = (fs\<lparr>files := (files fs)(outputPath \<mapsto> merged)\<rparr>, None)"
proof -
  let ?mc = "regexp_MustCompile lib"
  from assms(9) have name: "sectionName marker \<noteq> []"
    by (simp add: opensSection_def sectionName_def)
  have "mergeLoop ?mc output [] merged ([marker] @ post)
          = mergeLoop ?mc output (sectionName marker) merged post"
    using assms(9) unfolding append_Cons append_Nil mergeLoop_unfold by simp
  also have "\<dots> = Some (merged, sectionName marker)"
    using name assms(10) by (rule mergeLoop_unterminated)
  finally have "mergeLoop ?mc output [] [] (ScanLines existing)
                  = Some (merged, sectionName marker)"
    unfolding assms(7) mergeLoop_append [of ?mc "output" "[]" "[]" pre] assms(8) by simp
  with assms(4) have "mergeExisting ?mc templatePath output (Some existing) = Some merged"
    by (simp add: mergeExisting_def)
  with assms(1,2,3,5,6) show ?thesis
    by (simp add: renderTemplate_def)
qed

theorem unterminated_section_truncates_witness:
  "files (exampleFs exampleTemplate exampleUnterminated) ''./gen/templates/model.go''
     = Some exampleTemplate
   \<and> template_Parse exampleLibrary (path_Base ''./gen/templates/model.go'')
         (readTemplate ''./gen/templates/model.go'' exampleTemplate) = Some exampleRendered
   \<and> template_Execute exampleLibrary exampleRendered (ProviderData []) = Some exampleRendered
   \<and> HasSuffix ''./gen/templates/model.go'' ''.go''
   \<and> files (exampleFs exampleTemplate exampleUnterminated)
         ''./internal/provider/model_fmc_host.go'' = Some exampleUnterminated
   \<and> creatable (exampleFs exampleTemplate exampleUnterminated)
         ''./internal/provider/model_fmc_host.go''
   \<and> ScanLines exampleUnterminated
       = [''// kept''] @ [''//template:begin model''] @ [''stale'', ''// lost'']
   \<and> mergeLoop (regexp_MustCompile exampleLibrary) exampleRendered [] [] [''// kept'']
       = Some (joinLines [''// kept''], [])
   \<and> opensSection ''//template:begin model''
   \<and> \<not> list_ex (closesSection (sectionName ''//template:begin model'')) [''stale'', ''// lost'']
   \<and> renderTemplate exampleLibrary ''./gen/templates/model.go''
          ''./internal/provider/model_fmc_host.go'' (ProviderData [])
          (exampleFs exampleTemplate exampleUnterminated)
       = ((exampleFs exampleTemplate exampleUnterminated)
            \<lparr>files := (files (exampleFs exampleTemplate exampleUnterminated))
               (''./internal/provider/model_fmc_host.go'' \<mapsto> joinLines [''// kept''])\<rparr>,
          None)"
proof -
  have h1: "files (exampleFs exampleTemplate exampleUnterminated) ''./gen/templates/model.go''
     = Some exampleTemplate"
    by (simp add: exampleFs_def)
  have h2: "template_Parse exampleLibrary (path_Base ''./gen/templates/model.go'')
         (readTemplate ''./gen/templates/model.go'' exampleTemplate) = Some exampleRendered"
    by (simp add: exampleLibrary_def readTemplate_example)
  have h3: "template_Execute exampleLibrary exampleRendered (ProviderData [])
              = Some exampleRendered"
    by (simp add: exampleLibrary_def)
  have h4: "HasSuffix ''./gen/templates/model.go'' ''.go''"
    by (simp add: HasSuffix_def)
  have h5: "files (exampleFs exampleTemplate exampleUnterminated)
         ''./internal/provider/model_fmc_host.go'' = Some exampleUnterminated"
    by (simp add: exampleFs_def)
  have h6: "creatable (exampleFs exampleTemplate exampleUnterminated)
         ''./internal/provider/model_fmc_host.go''"
    by (simp add: exampleFs_def)
  have h7: "ScanLines exampleUnterminated
       = [''// kept''] @ [''//template:begin model''] @ [''stale'', ''// lost'']"
    by (simp add: ScanLines_examples)
  have h8: "mergeLoop (regexp_MustCompile exampleLibrary) exampleRendered [] [] [''// kept'']
       = Some (joinLines [''// kept''], [])"
    by (simp add: markers)
  have h9: "opensSection ''//template:begin model''"
    by (simp add: opensSection_def markers)
  have h10: "\<forall>l\<in>set [''stale'', ''// lost''].
               \<not> closesSection (sectionName ''//template:begin model'') l"
    by (simp add: closesSection_def markers)
  from unterminated_section_truncates [OF h1 h2 h3 h4 h5 h6 h7 h8 h9 h10]
    h1 h2 h3 h4 h5 h6 h7 h8 h9 h10
  show ?thesis by (simp only: list_ex_iff simp_thms bex_simps) 
qed

subsection \<open>The two phases of \<^verbatim>\<open>main\<close>\<close>

lemma renderTemplate_error:
  "renderTemplate lib templatePath outputPath config fs = (fs', Some err) \<Longrightarrow>
     fs' = fs \<and> err \<in> {ErrorOpeningTemplate, ErrorParsingTemplate, ErrorExecutingTemplate,
                        ErrorCreatingOutputFile, PanicMustCompile}"
  by (auto simp: renderTemplate_def split: option.splits if_splits)

lemma renderTemplates_error:
  "renderTemplates lib config ts fs = (fs', Some err) \<Longrightarrow>
     err \<in> {ErrorOpeningTemplate, ErrorParsingTemplate, ErrorExecutingTemplate,
             ErrorCreatingOutputFile, PanicMustCompile}"
proof (induction ts arbitrary: fs)
  case Nil
  then show ?case by simp
next
  case (Cons t ts)
  obtain fs1 r where r: "renderTemplate lib (t_path t)
      (t_prefix t @ SnakeCase (go_strings lib) (Name config) @ t_suffix t) (ConfigData config) fs = (fs1, r)"
    by (cases "renderTemplate lib (t_path t)
      (t_prefix t @ SnakeCase (go_strings lib) (Name config) @ t_suffix t) (ConfigData config) fs")
  show ?case
  proof (cases r)
    case None
    with Cons.prems r have "renderTemplates lib config ts fs1 = (fs', Some err)" by simp
    then show ?thesis by (rule Cons.IH)
  next
    case (Some e)
    with Cons.prems r have "e = err" by simp
    with r Some renderTemplate_error show ?thesis by blast
  qed
qed

lemma renderConfigs_error:
  "renderConfigs lib configs providerConfig fs = ((fs', Some err), pc) \<Longrightarrow>
     err \<in> {ErrorOpeningTemplate, ErrorParsingTemplate, ErrorExecutingTemplate,
             ErrorCreatingOutputFile, PanicMustCompile}"
proof (induction configs arbitrary: providerConfig fs)
  case Nil
  then show ?case by simp
next
  case (Cons config configs)
  obtain fs1 r where r: "renderTemplates lib (augmentConfig (go_strings lib) config) templates fs = (fs1, r)"
    by (cases "renderTemplates lib (augmentConfig (go_strings lib) config) templates fs")
  show ?case
  proof (cases r)
    case None
    with Cons.prems r
    have "renderConfigs lib configs (providerConfig @ [Name (augmentConfig (go_strings lib) config)]) fs1
            = ((fs', Some err), pc)"
      by (simp add: Let_def)
    then show ?thesis by (rule Cons.IH)
  next
    case (Some e)
    with Cons.prems r have "e = err" by (simp add: Let_def)
    with r Some renderTemplates_error show ?thesis by blast
  qed
qed

lemma loadConfigs_malformed:
  "filename \<in> set filenames \<Longrightarrow> files fs (definitionsPath @ filename) = Some yamlFile \<Longrightarrow>
   yaml_Unmarshal lib yamlFile = None \<Longrightarrow>
   loadConfigs lib fs filenames = Inl ErrorParsingYaml
   \<or> loadConfigs lib fs filenames = Inl ErrorReadingFile"
  by (induction filenames) (auto split: option.splits sum.splits)

lemma main_ParsingYaml_unchanged:
  "main lib fs = (fs', Some ErrorParsingYaml) \<Longrightarrow> fs' = fs"
proof -
  assume m: "main lib fs = (fs', Some ErrorParsingYaml)"
  show ?thesis
  proof (cases "loadConfigs lib fs (entries fs definitionsPath)")
    case (Inl err)
    with m show ?thesis by (simp add: main_def)
  next
    case (Inr configs)
    obtain fs1 r pc where rc: "renderConfigs lib configs [] fs = ((fs1, r), pc)"
      by (cases "renderConfigs lib configs [] fs") auto
    show ?thesis
    proof (cases r)
      case (Some e)
      with m Inr rc have "e = ErrorParsingYaml" by (simp add: main_def)
      with rc Some renderConfigs_error [of lib configs "[]" fs fs1 e pc] show ?thesis by simp
    next
      case None
      obtain fs2 r2 where rp: "renderTemplate lib providerTemplate providerLocation
                       (ProviderData pc) fs1 = (fs2, r2)"
        by (cases "renderTemplate lib providerTemplate providerLocation (ProviderData pc) fs1")
      show ?thesis
      proof (cases r2)
        case (Some e)
        with m Inr rc None rp have "e = ErrorParsingYaml" by (simp add: main_def)
        with rp Some have "renderTemplate lib providerTemplate providerLocation
                       (ProviderData pc) fs1 = (fs2, Some ErrorParsingYaml)" by simp
        from renderTemplate_error [OF this] show ?thesis by simp
      next
        case N2: None
        show ?thesis
        proof (cases "files fs2 changelogOriginal")
          case None
          with m Inr rc \<open>r = None\<close> rp N2 show ?thesis by (simp add: main_def)
        next
          case (Some changelog)
          with m Inr rc \<open>r = None\<close> rp N2
          have "renderTemplate lib changelogTemplate changelogLocation
                           (ChangelogData changelog) fs2 = (fs', Some ErrorParsingYaml)"
            by (simp add: main_def)
          from renderTemplate_error [OF this] show ?thesis by simp
        qed
      qed
    qed
  qed
qed

text \<open>
  Claim C8. When a definition in the listing of the definitions directory does not parse,
  \<^verbatim>\<open>main\<close> ends with an error of the first loop (the parse error, or the read error of
  another definition) and the file system is the one it started with; and whenever
  \<^verbatim>\<open>main\<close> ends with the parse error, the file system is unchanged, since only the first
  loop raises it and nothing is written before that loop is done.
\<close>

theorem main_aborts_on_malformed_schema:
  "(filename \<in> set (entries fs definitionsPath)
      \<and> files fs (definitionsPath @ filename) = Some yamlFile
      \<and> yaml_Unmarshal lib yamlFile = None
     \<longrightarrow> main lib fs = (fs, Some ErrorParsingYaml) \<or> main lib fs = (fs, Some ErrorReadingFile))
   \<and> (main lib fs = (fs', Some ErrorParsingYaml) \<longrightarrow> fs' = fs)"
proof -
  have "main lib fs = (fs, Some ErrorParsingYaml) \<or> main lib fs = (fs, Some ErrorReadingFile)"
    if "filename \<in> set (entries fs definitionsPath)"
      and "files fs (definitionsPath @ filename) = Some yamlFile"
      and "yaml_Unmarshal lib yamlFile = None"
    using loadConfigs_malformed [OF that] by (auto simp: main_def)
  then show ?thesis using main_ParsingYaml_unchanged [of lib fs fs'] by blast
qed

theorem main_aborts_on_malformed_schema_witness:
  "''host.yaml'' \<in> set (entries (exampleDefinitions ''name Host'') definitionsPath)
   \<and> files (exampleDefinitions ''name Host'') (definitionsPath @ ''host.yaml'')
       = Some ''name Host''
   \<and> yaml_Unmarshal exampleLibrary ''name Host'' = None
   \<and> main exampleLibrary (exampleDefinitions ''name Host'')
       = (exampleDefinitions ''name Host'', Some ErrorParsingYaml)"
  using main_aborts_on_malformed_schema
    [of "''host.yaml''" "exampleDefinitions ''name Host''" "''name Host''" exampleLibrary]
  by (simp add: exampleDefinitions_def exampleLibrary_def HasPrefix_def main_def)

end
